(* ===== verification/Prelude.thy ===== *)
theory Prelude
  imports Main "HOL-Library.Word"
begin

text \<open>
  Shared vocabulary of the development. JavaScript strings are sequences of
  UTF-16 code units, so a string of the handler \<open>src/app/api/route.ts\<close> is a
  list of \<open>16 word\<close>; an ASCII literal of the source is written with \<open>js\<close>.
  Errors the handler can throw are values of \<open>js_error\<close>; fallible operations
  return \<open>js_error + 'a\<close>. The collection \<open>model_simps\<close> gathers the
  definitional equations that evaluation of concrete requests needs.
\<close>

named_theorems model_simps "equations unfolded when a concrete request is evaluated"

type_synonym cu = "16 word"
type_synonym jstr = "cu list"

text \<open>The exceptions that can escape the handler as an unhandled rejection.\<close>

datatype js_error =
    TypeError
  | RangeError
  | URIError
  | ServiceError jstr

definition js :: "string \<Rightarrow> jstr" where
  "js s = map (\<lambda>c. of_nat (of_char c)) s"

text \<open>JavaScript's \<open>ToString\<close> of a nullable string: \<open>null\<close> prints as \<open>"null"\<close>.\<close>

definition js_str_of :: "jstr option \<Rightarrow> jstr" where
  "js_str_of v = (case v of None \<Rightarrow> js ''null'' | Some s \<Rightarrow> s)"

text \<open>Truthiness of a nullable string, as \<open>!x\<close> and \<open>x || y\<close> see it.\<close>

definition js_truthy :: "jstr option \<Rightarrow> bool" where
  "js_truthy v = (case v of None \<Rightarrow> False | Some s \<Rightarrow> s \<noteq> [])"

definition js_or :: "jstr option \<Rightarrow> jstr option \<Rightarrow> jstr option" where
  "js_or a b = (if js_truthy a then a else b)"

text \<open>\<open>a || b\<close> on two strings: the left one unless it is empty.\<close>

definition js_or_str :: "jstr \<Rightarrow> jstr \<Rightarrow> jstr" where
  "js_or_str a b = (if a \<noteq> [] then a else b)"

text \<open>Request headers as \<open>Headers.get\<close> reads them (names in lower case).\<close>

type_synonym headers = "jstr \<Rightarrow> jstr option"

text \<open>Prefixing the result of a fallible string builder.\<close>

abbreviation prepend :: "'a list \<Rightarrow> 'e + 'a list \<Rightarrow> 'e + 'a list" where
  "prepend xs r \<equiv> map_sum id (\<lambda>ys. xs @ ys) r"

declare js_str_of_def [model_simps] js_truthy_def [model_simps] js_or_def [model_simps]
  js_or_str_def [model_simps]

subsection \<open>Lemmas on literals\<close>

lemma js_Nil [simp]: "js [] = []"
  by (simp add: js_def)

lemma js_Cons [simp]: "js (c # s) = of_nat (of_char c) # js s"
  by (simp add: js_def)

lemma js_append [simp]: "js (a @ b) = js a @ js b"
  by (simp add: js_def)

lemma length_js [simp]: "length (js s) = length s"
  by (simp add: js_def)

lemma js_eq_Nil_iff [simp]: "js s = [] \<longleftrightarrow> s = []"
  by (simp add: js_def)

lemma unat_js_char [simp]: "unat (of_nat (of_char c) :: cu) = of_char c"
proof -
  have "of_char c < (256::nat)" by (rule nat_of_char_less_256)
  then show ?thesis by (simp add: unat_of_nat less_trans [of _ 256 65536])
qed

lemma js_char_inject [simp]:
  "((of_nat (of_char a) :: cu) = of_nat (of_char b)) \<longleftrightarrow> a = b"
  by (metis unat_js_char of_char_eq_iff)

lemma js_inject [simp]: "js a = js b \<longleftrightarrow> a = b"
proof
  assume "js a = js b"
  then show "a = b"
  proof (induction a arbitrary: b)
    case Nil
    then show ?case by (cases b) auto
  next
    case (Cons x xs)
    then show ?case by (cases b) auto
  qed
qed simp

lemma unat_js_nth_less_256: "c \<in> set (js s) \<Longrightarrow> unat c < 256"
  by (auto simp: js_def)

subsection \<open>Code units as numbers\<close>

lemma unat_cu_less: "unat (c::cu) < 65536"
proof -
  have "unat c < 2 ^ LENGTH(16)" by (rule unsigned_less)
  then show ?thesis by simp
qed

lemma unat_of_nat_cu: "n < 65536 \<Longrightarrow> unat (of_nat n :: cu) = n"
  by (simp add: unat_of_nat)

lemma offsetE:
  assumes "(k::nat) \<le> b" "b < k + m"
  obtains x where "x < m" "b = k + x"
  using assms by (intro that [of "b - k"]) auto

subsection \<open>Lemmas on sums and lists shared by the components\<close>

lemma prepend_Inr_iff [simp]:
  "prepend xs r = Inr ys \<longleftrightarrow> (\<exists>zs. r = Inr zs \<and> ys = xs @ zs)"
  by (cases r) auto

lemma prepend_Inl_iff [simp]:
  "prepend xs r = Inl e \<longleftrightarrow> r = Inl e"
  by (cases r) auto

lemma js_truthy_Some [simp]: "js_truthy (Some s) \<longleftrightarrow> s \<noteq> []"
  by (simp add: js_truthy_def)

lemma js_truthy_None [simp]: "\<not> js_truthy None"
  by (simp add: js_truthy_def)

end
