(* ===== verification/Unicode.thy ===== *)
theory Unicode
  imports Prelude
begin

text \<open>
  The Unicode layer under the string operations of the handler: UTF-16 code
  units and surrogate pairs (the ECMAScript abstract operations
  \<open>CodePointAt\<close>, \<open>UTF16SurrogatePairToCodePoint\<close> and
  \<open>UTF16EncodeCodePoint\<close>), and UTF-8 octet sequences of one code point as
  \<open>encodeURIComponent\<close> produces them and \<open>decodeURIComponent\<close> accepts them.
  These are JavaScript built-ins, modelled from the ECMAScript specification.
  The lemmas are the round trips in both encodings and the exact
  characterisation of the octet sequences the decoder accepts.
\<close>

subsection \<open>UTF-16\<close>

definition is_lead :: "cu \<Rightarrow> bool" where
  "is_lead c \<longleftrightarrow> 0xD800 \<le> unat c \<and> unat c \<le> 0xDBFF"

definition is_trail :: "cu \<Rightarrow> bool" where
  "is_trail c \<longleftrightarrow> 0xDC00 \<le> unat c \<and> unat c \<le> 0xDFFF"

definition surrogate_pair_cp :: "cu \<Rightarrow> cu \<Rightarrow> nat" where
  "surrogate_pair_cp lead trail =
     (unat lead - 0xD800) * 0x400 + (unat trail - 0xDC00) + 0x10000"

definition scalar_value :: "nat \<Rightarrow> bool" where
  "scalar_value cp \<longleftrightarrow> cp \<le> 0x10FFFF \<and> \<not> (0xD800 \<le> cp \<and> cp \<le> 0xDFFF)"

definition utf16_encode_cp :: "nat \<Rightarrow> jstr" where
  "utf16_encode_cp cp =
     (if cp \<le> 0xFFFF then [of_nat cp]
      else [of_nat ((cp - 0x10000) div 0x400 + 0xD800),
            of_nat ((cp - 0x10000) mod 0x400 + 0xDC00)])"

text \<open>
  The code points of a string, reading it as \<open>CodePointAt\<close> does; \<open>None\<close> when
  the string holds an unpaired surrogate (the case in which the URI encoder
  throws).
\<close>

fun code_points :: "jstr \<Rightarrow> nat list option" where
  "code_points [] = Some []"
| "code_points (c # cs) =
     (if is_trail c then None
      else if is_lead c then
        (case cs of
           [] \<Rightarrow> None
         | d # ds \<Rightarrow>
             if is_trail d then map_option (Cons (surrogate_pair_cp c d)) (code_points ds)
             else None)
      else map_option (Cons (unat c)) (code_points cs))"

subsection \<open>UTF-8\<close>

definition cont_octet :: "nat \<Rightarrow> bool" where
  "cont_octet b \<longleftrightarrow> 0x80 \<le> b \<and> b < 0xC0"

definition utf8_encode_cp :: "nat \<Rightarrow> nat list" where
  "utf8_encode_cp cp =
     (if cp < 0x80 then [cp]
      else if cp < 0x800 then [0xC0 + cp div 64, 0x80 + cp mod 64]
      else if cp < 0x10000 then
        [0xE0 + cp div 4096, 0x80 + cp div 64 mod 64, 0x80 + cp mod 64]
      else [0xF0 + cp div 262144, 0x80 + cp div 4096 mod 64,
            0x80 + cp div 64 mod 64, 0x80 + cp mod 64])"

text \<open>
  One octet sequence decoded to the code point it encodes, \<open>None\<close> unless it
  is a well-formed UTF-8 sequence (no overlong form, no surrogate, nothing
  above U+10FFFF).
\<close>

fun utf8_decode_seq :: "nat list \<Rightarrow> nat option" where
  "utf8_decode_seq [b] = (if b < 0x80 then Some b else None)"
| "utf8_decode_seq [b1, b2] =
     (if 0xC0 \<le> b1 \<and> b1 < 0xE0 \<and> cont_octet b2 then
        (let cp = (b1 - 0xC0) * 64 + (b2 - 0x80) in
         if 0x80 \<le> cp then Some cp else None)
      else None)"
| "utf8_decode_seq [b1, b2, b3] =
     (if 0xE0 \<le> b1 \<and> b1 < 0xF0 \<and> cont_octet b2 \<and> cont_octet b3 then
        (let cp = (b1 - 0xE0) * 4096 + (b2 - 0x80) * 64 + (b3 - 0x80) in
         if 0x800 \<le> cp \<and> \<not> (0xD800 \<le> cp \<and> cp \<le> 0xDFFF) then Some cp else None)
      else None)"
| "utf8_decode_seq [b1, b2, b3, b4] =
     (if 0xF0 \<le> b1 \<and> b1 < 0xF8 \<and> cont_octet b2 \<and> cont_octet b3 \<and> cont_octet b4 then
        (let cp = (b1 - 0xF0) * 262144 + (b2 - 0x80) * 4096 + (b3 - 0x80) * 64 + (b4 - 0x80) in
         if 0x10000 \<le> cp \<and> cp \<le> 0x10FFFF then Some cp else None)
      else None)"
| "utf8_decode_seq _ = None"

declare is_lead_def [model_simps] is_trail_def [model_simps] surrogate_pair_cp_def [model_simps]
  utf8_encode_cp_def [model_simps] utf16_encode_cp_def [model_simps]

subsection \<open>Arithmetic of octet payloads\<close>

lemma cont_octetE:
  assumes "cont_octet b"
  obtains y where "y < 64" "b = 128 + y"
  using assms unfolding cont_octet_def by (intro that [of "b - 128"]) auto

lemma radix64_div: "z < 64 \<Longrightarrow> ((a::nat) * 64 + z) div 64 = a"
  by simp

lemma radix64_mod: "z < 64 \<Longrightarrow> ((a::nat) * 64 + z) mod 64 = z"
  by simp

lemma div64_split: "(n::nat) div 64 = n div 4096 * 64 + n div 64 mod 64"
proof -
  have "n div 64 div 64 = n div 4096" by (simp add: div_mult2_eq)
  then show ?thesis by (metis div_mult_mod_eq)
qed

lemma div4096_split: "(n::nat) div 4096 = n div 262144 * 64 + n div 4096 mod 64"
proof -
  have "n div 4096 div 64 = n div 262144" by (simp add: div_mult2_eq)
  then show ?thesis by (metis div_mult_mod_eq)
qed

lemma three_octets: "(n::nat) div 4096 * 4096 + n div 64 mod 64 * 64 + n mod 64 = n"
proof -
  have "n = n div 64 * 64 + n mod 64" by simp
  also have "\<dots> = (n div 4096 * 64 + n div 64 mod 64) * 64 + n mod 64"
    by (subst div64_split) rule
  finally show ?thesis by simp
qed

lemma four_octets:
  "(n::nat) div 262144 * 262144 + n div 4096 mod 64 * 4096 + n div 64 mod 64 * 64 + n mod 64 = n"
proof -
  have "n = n div 4096 * 4096 + n div 64 mod 64 * 64 + n mod 64" by (simp add: three_octets)
  also have "\<dots> = (n div 262144 * 64 + n div 4096 mod 64) * 4096 + n div 64 mod 64 * 64 + n mod 64"
    by (subst div4096_split) rule
  finally show ?thesis by simp
qed

subsection \<open>UTF-8: the decoder inverts the encoder\<close>

lemma utf8_decode_two:
  assumes "0x80 \<le> cp" "cp < (0x800::nat)"
  shows "utf8_decode_seq [0xC0 + cp div 64, 0x80 + cp mod 64] = Some cp"
proof -
  have "cp div 64 < 32" using assms by simp
  then have c: "0xC0 \<le> 0xC0 + cp div 64 \<and> 0xC0 + cp div 64 < (0xE0::nat)" by simp
  have d: "cont_octet (0x80 + cp mod 64)" by (simp add: cont_octet_def)
  have e: "(0xC0 + cp div 64 - 0xC0) * 64 + (0x80 + cp mod 64 - 0x80) = cp" by simp
  show ?thesis using assms c d e by (simp only: utf8_decode_seq.simps Let_def) simp
qed

lemma utf8_decode_three:
  assumes "0x800 \<le> cp" "cp < (0x10000::nat)" "\<not> (0xD800 \<le> cp \<and> cp \<le> 0xDFFF)"
  shows "utf8_decode_seq [0xE0 + cp div 4096, 0x80 + cp div 64 mod 64, 0x80 + cp mod 64] = Some cp"
proof -
  have "cp div 4096 < 16" using assms by simp
  then have c: "0xE0 \<le> 0xE0 + cp div 4096 \<and> 0xE0 + cp div 4096 < (0xF0::nat)" by simp
  have d: "cont_octet (0x80 + cp div 64 mod 64) \<and> cont_octet (0x80 + cp mod 64)"
    by (simp add: cont_octet_def)
  have e: "(0xE0 + cp div 4096 - 0xE0) * 4096 + (0x80 + cp div 64 mod 64 - 0x80) * 64
           + (0x80 + cp mod 64 - 0x80) = cp"
    using three_octets [of cp] by simp
  show ?thesis using assms c d e by (simp only: utf8_decode_seq.simps Let_def) simp
qed

lemma utf8_decode_four:
  assumes "0x10000 \<le> cp" "cp \<le> (0x10FFFF::nat)"
  shows "utf8_decode_seq [0xF0 + cp div 262144, 0x80 + cp div 4096 mod 64,
                          0x80 + cp div 64 mod 64, 0x80 + cp mod 64] = Some cp"
proof -
  have "cp div 262144 < 8" using assms by simp
  then have c: "0xF0 \<le> 0xF0 + cp div 262144 \<and> 0xF0 + cp div 262144 < (0xF8::nat)" by simp
  have d: "cont_octet (0x80 + cp div 4096 mod 64) \<and> cont_octet (0x80 + cp div 64 mod 64)
           \<and> cont_octet (0x80 + cp mod 64)"
    by (simp add: cont_octet_def)
  have e: "(0xF0 + cp div 262144 - 0xF0) * 262144 + (0x80 + cp div 4096 mod 64 - 0x80) * 4096
           + (0x80 + cp div 64 mod 64 - 0x80) * 64 + (0x80 + cp mod 64 - 0x80) = cp"
    using four_octets [of cp] by simp
  show ?thesis using assms c d e by (simp only: utf8_decode_seq.simps Let_def) simp
qed

theorem utf8_decode_encode:
  assumes "scalar_value cp"
  shows "utf8_decode_seq (utf8_encode_cp cp) = Some cp"
proof -
  consider "cp < 0x80" | "0x80 \<le> cp" "cp < 0x800" | "0x800 \<le> cp" "cp < 0x10000"
    | "0x10000 \<le> cp"
    by linarith
  then show ?thesis
  proof cases
    case 1
    then show ?thesis by (simp add: utf8_encode_cp_def)
  next
    case 2
    then have "utf8_encode_cp cp = [0xC0 + cp div 64, 0x80 + cp mod 64]"
      by (simp add: utf8_encode_cp_def)
    with utf8_decode_two [OF 2] show ?thesis by simp
  next
    case 3
    then have "utf8_encode_cp cp = [0xE0 + cp div 4096, 0x80 + cp div 64 mod 64, 0x80 + cp mod 64]"
      by (simp add: utf8_encode_cp_def)
    moreover have "\<not> (0xD800 \<le> cp \<and> cp \<le> 0xDFFF)"
      using assms by (simp add: scalar_value_def)
    ultimately show ?thesis using utf8_decode_three [OF 3] by simp
  next
    case 4
    then have "utf8_encode_cp cp = [0xF0 + cp div 262144, 0x80 + cp div 4096 mod 64,
                                    0x80 + cp div 64 mod 64, 0x80 + cp mod 64]"
      by (simp add: utf8_encode_cp_def)
    moreover have "cp \<le> 0x10FFFF" using assms by (simp add: scalar_value_def)
    ultimately show ?thesis using utf8_decode_four [OF 4] by simp
  qed
qed

lemma utf8_decode_two_inv:
  assumes "utf8_decode_seq [b1, b2] = Some cp"
  shows "utf8_encode_cp cp = [b1, b2] \<and> scalar_value cp"
proof -
  from assms have r: "0xC0 \<le> b1" "b1 < 0xC0 + 32" "cont_octet b2"
    and cp: "cp = (b1 - 0xC0) * 64 + (b2 - 0x80)" and lo: "0x80 \<le> cp"
    by (auto simp: Let_def split: if_splits)
  obtain x y where x: "x < 32" "b1 = 0xC0 + x" and y: "y < 64" "b2 = 128 + y"
    using r by (elim offsetE cont_octetE) blast
  have "cp = x * 64 + y" using cp x y by simp
  then show ?thesis using x y lo by (simp add: utf8_encode_cp_def scalar_value_def)
qed

lemma utf8_decode_three_inv:
  assumes "utf8_decode_seq [b1, b2, b3] = Some cp"
  shows "utf8_encode_cp cp = [b1, b2, b3] \<and> scalar_value cp"
proof -
  from assms have r: "0xE0 \<le> b1" "b1 < 0xE0 + 16" "cont_octet b2" "cont_octet b3"
    and cp: "cp = (b1 - 0xE0) * 4096 + (b2 - 0x80) * 64 + (b3 - 0x80)"
    and lo: "0x800 \<le> cp" "\<not> (0xD800 \<le> cp \<and> cp \<le> 0xDFFF)"
    by (auto simp: Let_def split: if_splits)
  obtain x y z where x: "x < 16" "b1 = 0xE0 + x" and y: "y < 64" "b2 = 128 + y"
    and z: "z < 64" "b3 = 128 + z"
    using r by (elim offsetE cont_octetE) blast
  have c: "cp = (x * 64 + y) * 64 + z" using cp x y z by simp
  have m1: "cp div 64 = x * 64 + y" "cp mod 64 = z"
    using c z by (simp_all only: radix64_div radix64_mod)
  then have "cp div 4096 = x" "cp div 64 mod 64 = y"
    using y by (simp_all add: div_mult2_eq [of cp 64 64, simplified])
  then show ?thesis using x y z c lo m1 by (simp add: utf8_encode_cp_def scalar_value_def)
qed

lemma utf8_decode_four_inv:
  assumes "utf8_decode_seq [b1, b2, b3, b4] = Some cp"
  shows "utf8_encode_cp cp = [b1, b2, b3, b4] \<and> scalar_value cp"
proof -
  from assms have r: "0xF0 \<le> b1" "b1 < 0xF0 + 8" "cont_octet b2" "cont_octet b3" "cont_octet b4"
    and cp: "cp = (b1 - 0xF0) * 262144 + (b2 - 0x80) * 4096 + (b3 - 0x80) * 64 + (b4 - 0x80)"
    and lo: "0x10000 \<le> cp" "cp \<le> 0x10FFFF"
    by (auto simp: Let_def split: if_splits)
  obtain x y z w where x: "x < 8" "b1 = 0xF0 + x" and y: "y < 64" "b2 = 128 + y"
    and z: "z < 64" "b3 = 128 + z" and w: "w < 64" "b4 = 128 + w"
    using r by (elim offsetE cont_octetE) blast
  have c: "cp = ((x * 64 + y) * 64 + z) * 64 + w" using cp x y z w by simp
  have m1: "cp div 64 = (x * 64 + y) * 64 + z" "cp mod 64 = w"
    using c w by (simp_all only: radix64_div radix64_mod)
  have q: "cp div 4096 = cp div 64 div 64" "cp div 262144 = cp div 4096 div 64"
    by (simp_all add: div_mult2_eq)
  have m2: "cp div 4096 = x * 64 + y" "cp div 64 mod 64 = z"
    using m1 z q by (simp_all only: radix64_div radix64_mod)
  have m3: "cp div 262144 = x" "cp div 4096 mod 64 = y"
    using m2 y q by (simp_all only: radix64_div radix64_mod)
  show ?thesis using x y z w lo m1 m2 m3 by (simp add: utf8_encode_cp_def scalar_value_def)
qed

lemma utf8_decode_seq_Some:
  assumes "utf8_decode_seq bs = Some cp"
  shows "utf8_encode_cp cp = bs \<and> scalar_value cp"
proof (cases bs rule: utf8_decode_seq.cases)
  case (1 b)
  with assms show ?thesis by (auto simp: utf8_encode_cp_def scalar_value_def split: if_splits)
qed (use assms in \<open>auto simp del: utf8_decode_seq.simps(2,3,4)
      dest: utf8_decode_two_inv utf8_decode_three_inv utf8_decode_four_inv\<close>)

theorem utf8_decode_seq_iff:
  "utf8_decode_seq bs = Some cp \<longleftrightarrow> scalar_value cp \<and> utf8_encode_cp cp = bs"
  by (auto dest: utf8_decode_seq_Some simp: utf8_decode_encode)

lemma utf8_encode_cp_bounds:
  assumes "scalar_value cp"
  shows "1 \<le> length (utf8_encode_cp cp) \<and> length (utf8_encode_cp cp) \<le> 4
         \<and> (\<forall>b \<in> set (utf8_encode_cp cp). b < 256)"
  using assms by (auto simp: utf8_encode_cp_def scalar_value_def)

subsection \<open>UTF-16: code points of an encoded string\<close>

lemma utf16_encode_bmp: "cp \<le> 0xFFFF \<Longrightarrow> utf16_encode_cp cp = [of_nat cp]"
  by (simp add: utf16_encode_cp_def)

lemma code_points_utf16_encode:
  assumes "scalar_value cp"
  shows "code_points (utf16_encode_cp cp @ rest) = map_option (Cons cp) (code_points rest)"
proof (cases "cp \<le> 0xFFFF")
  case True
  then have u: "unat (of_nat cp :: cu) = cp" by (simp add: unat_of_nat_cu)
  have "\<not> is_trail (of_nat cp)" "\<not> is_lead (of_nat cp)"
    using assms u by (auto simp: is_trail_def is_lead_def scalar_value_def)
  with True u show ?thesis by (simp add: utf16_encode_cp_def)
next
  case False
  define v where "v = cp - 0x10000"
  have v: "v < 0x100000" "cp = v + 0x10000"
    using False assms by (auto simp: v_def scalar_value_def)
  have hi: "v div 0x400 < 0x400" "v mod 0x400 < 0x400" using v by simp_all
  have uh: "unat (of_nat (v div 0x400 + 0xD800) :: cu) = v div 0x400 + 0xD800"
    using hi by (intro unat_of_nat_cu) simp
  have ul: "unat (of_nat (v mod 0x400 + 0xDC00) :: cu) = v mod 0x400 + 0xDC00"
    using hi by (intro unat_of_nat_cu) simp
  have p: "surrogate_pair_cp (of_nat (v div 0x400 + 0xD800)) (of_nat (v mod 0x400 + 0xDC00)) = cp"
    using uh ul v by (simp add: surrogate_pair_cp_def)
  have "is_lead (of_nat (v div 0x400 + 0xD800))" "\<not> is_trail (of_nat (v div 0x400 + 0xD800))"
       "is_trail (of_nat (v mod 0x400 + 0xDC00))"
    using uh ul hi by (simp_all add: is_lead_def is_trail_def)
  with False p show ?thesis by (simp add: utf16_encode_cp_def v_def)
qed

theorem code_points_concat:
  "list_all scalar_value cps \<Longrightarrow> code_points (concat (map utf16_encode_cp cps)) = Some cps"
  by (induction cps) (simp_all add: code_points_utf16_encode)

lemma surrogate_pair_encode:
  assumes "is_lead c" "is_trail d"
  shows "utf16_encode_cp (surrogate_pair_cp c d) = [c, d] \<and> scalar_value (surrogate_pair_cp c d)"
proof -
  obtain x where x: "x < 0x400" "unat c = 0xD800 + x"
    using assms(1) by (auto simp: is_lead_def intro!: that [of "unat c - 0xD800"])
  obtain y where y: "y < 0x400" "unat d = 0xDC00 + y"
    using assms(2) by (auto simp: is_trail_def intro!: that [of "unat d - 0xDC00"])
  have sp: "surrogate_pair_cp c d = x * 0x400 + y + 0x10000"
    using x y by (simp add: surrogate_pair_cp_def)
  have "(x * 0x400 + y) div 0x400 = x" "(x * 0x400 + y) mod 0x400 = y" using y by simp_all
  moreover have "unat (of_nat (x + 0xD800) :: cu) = x + 0xD800"
    "unat (of_nat (y + 0xDC00) :: cu) = y + 0xDC00"
    using x y by (intro unat_of_nat_cu; simp)+
  then have "c = of_nat (x + 0xD800)" "d = of_nat (y + 0xDC00)"
    using x y by (simp_all only: word_unat_eq_iff add.commute)
  ultimately show ?thesis using sp x y by (simp add: utf16_encode_cp_def scalar_value_def)
qed

lemma single_unit_encode:
  assumes "\<not> is_lead c" "\<not> is_trail c"
  shows "utf16_encode_cp (unat c) = [c] \<and> scalar_value (unat c)"
proof -
  have "unat c \<le> 0xFFFF" using unat_cu_less [of c] by simp
  then show ?thesis
    using assms by (auto simp: utf16_encode_cp_def scalar_value_def is_lead_def is_trail_def)
qed

theorem code_points_Some:
  "code_points s = Some cps \<Longrightarrow> concat (map utf16_encode_cp cps) = s \<and> list_all scalar_value cps"
proof (induction s arbitrary: cps rule: code_points.induct)
  case 1
  then show ?case by simp
next
  case (2 c cs)
  show ?case
  proof (cases "is_lead c")
    case True
    with "2.prems" obtain d ds rs where cs: "cs = d # ds" and t: "is_trail d" "\<not> is_trail c"
      and r: "code_points ds = Some rs" and cps: "cps = surrogate_pair_cp c d # rs"
      by (auto split: list.splits if_splits)
    have "concat (map utf16_encode_cp rs) = ds \<and> list_all scalar_value rs"
      using "2.IH"(1) [OF t(2) True cs t(1) r] .
    with surrogate_pair_encode [OF True t(1)] cs cps show ?thesis by simp
  next
    case False
    with "2.prems" obtain rs where t: "\<not> is_trail c" and r: "code_points cs = Some rs"
      and cps: "cps = unat c # rs"
      by (auto split: if_splits)
    have "concat (map utf16_encode_cp rs) = cs \<and> list_all scalar_value rs"
      using "2.IH"(2) [OF t False r] .
    with single_unit_encode [OF False t] cps show ?thesis by simp
  qed
qed

end
