(* ===== verification/Uri.thy ===== *)
theory Uri
  imports Unicode
begin

text \<open>
  Percent-encoding of the two response headers. The handler sets
  \<open>X-Transcript\<close> and \<open>X-Response\<close> to \<open>encodeURIComponent(...)\<close>
  (\<open>src/app/api/route.ts\<close>, lines 113--114); a client reads them back with
  \<open>decodeURIComponent\<close>. Both are ECMAScript built-ins (the abstract operations
  \<open>Encode\<close> and \<open>Decode\<close> of the specification, section "URI Handling
  Functions"), modelled here code unit by code unit, with \<open>URIError\<close> as the
  \<open>Inl\<close> branch. The lemmas: the encoder is a refinement of a code-point level
  specification (so it fails exactly on strings with an unpaired surrogate);
  decoding an encoding gives the original string back; an encoding consists of
  visible ASCII characters only, and is at most nine times as long as its input.
\<close>

subsection \<open>Character classes and hex digits\<close>

text \<open>The characters \<open>encodeURIComponent\<close> leaves alone: uriAlpha, DecimalDigit, uriMark.\<close>

definition uri_unreserved :: "cu \<Rightarrow> bool" where
  "uri_unreserved c \<longleftrightarrow>
     (let n = unat c in
        (0x41 \<le> n \<and> n \<le> 0x5A) \<or> (0x61 \<le> n \<and> n \<le> 0x7A) \<or> (0x30 \<le> n \<and> n \<le> 0x39)
      \<or> n \<in> set [0x2D, 0x5F, 0x2E, 0x21, 0x7E, 0x2A, 0x27, 0x28, 0x29])"

abbreviation pct :: cu where
  "pct \<equiv> 0x25"

text \<open>Uppercase hex digit of a nibble, as \<open>Encode\<close> prints octets.\<close>

definition hex_digit :: "nat \<Rightarrow> cu" where
  "hex_digit n = (if n < 10 then of_nat (0x30 + n) else of_nat (0x37 + n))"

definition percent_octet :: "nat \<Rightarrow> jstr" where
  "percent_octet b = [pct, hex_digit (b div 16), hex_digit (b mod 16)]"

definition percent_octets :: "nat list \<Rightarrow> jstr" where
  "percent_octets bs = concat (map percent_octet bs)"

text \<open>Value of a hex digit of either case, as \<open>ParseHexOctet\<close> reads it.\<close>

definition hex_value :: "cu \<Rightarrow> nat option" where
  "hex_value c =
     (let n = unat c in
      if 0x30 \<le> n \<and> n \<le> 0x39 then Some (n - 0x30)
      else if 0x41 \<le> n \<and> n \<le> 0x46 then Some (n - 0x37)
      else if 0x61 \<le> n \<and> n \<le> 0x66 then Some (n - 0x57)
      else None)"

definition parse_hex_octet :: "cu \<Rightarrow> cu \<Rightarrow> nat option" where
  "parse_hex_octet h l =
     (case (hex_value h, hex_value l) of
        (Some a, Some b) \<Rightarrow> Some (16 * a + b)
      | _ \<Rightarrow> None)"

text \<open>Number of leading one bits of an octet (the \<open>n\<close> of \<open>Decode\<close>).\<close>

definition octet_leading_ones :: "nat \<Rightarrow> nat" where
  "octet_leading_ones b =
     (if b < 0x80 then 0 else if b < 0xC0 then 1 else if b < 0xE0 then 2
      else if b < 0xF0 then 3 else if b < 0xF8 then 4 else if b < 0xFC then 5
      else if b < 0xFE then 6 else if b < 0xFF then 7 else 8)"

subsection \<open>encodeURIComponent\<close>

fun encode_uri_component :: "jstr \<Rightarrow> js_error + jstr" where
  "encode_uri_component [] = Inr []"
| "encode_uri_component (c # cs) =
     (if uri_unreserved c then prepend [c] (encode_uri_component cs)
      else if is_trail c then Inl URIError
      else if is_lead c then
        (case cs of
           [] \<Rightarrow> Inl URIError
         | d # ds \<Rightarrow>
             if is_trail d then
               prepend (percent_octets (utf8_encode_cp (surrogate_pair_cp c d)))
                 (encode_uri_component ds)
             else Inl URIError)
      else prepend (percent_octets (utf8_encode_cp (unat c))) (encode_uri_component cs))"

subsection \<open>decodeURIComponent\<close>

text \<open>The \<open>n - 1\<close> continuation escapes \<open>%XY\<close> that follow a leading octet.\<close>

fun take_escapes :: "nat \<Rightarrow> jstr \<Rightarrow> nat list option" where
  "take_escapes 0 s = Some []"
| "take_escapes (Suc m) (p # h # l # rest) =
     (if p = pct then
        (case parse_hex_octet h l of
           None \<Rightarrow> None
         | Some b \<Rightarrow> map_option (Cons b) (take_escapes m rest))
      else None)"
| "take_escapes (Suc m) _ = None"

function decode_uri_component :: "jstr \<Rightarrow> js_error + jstr" where
  "decode_uri_component [] = Inr []"
| "decode_uri_component (c # cs) =
     (if c \<noteq> pct then prepend [c] (decode_uri_component cs)
      else
        (case cs of
           h # l # rest \<Rightarrow>
             (case parse_hex_octet h l of
                None \<Rightarrow> Inl URIError
              | Some b \<Rightarrow>
                  (let n = octet_leading_ones b in
                   if n = 0 then prepend [of_nat b] (decode_uri_component rest)
                   else if n = 1 \<or> 4 < n then Inl URIError
                   else
                     (case take_escapes (n - 1) rest of
                        None \<Rightarrow> Inl URIError
                      | Some bs \<Rightarrow>
                          (case utf8_decode_seq (b # bs) of
                             None \<Rightarrow> Inl URIError
                           | Some cp \<Rightarrow>
                               prepend (utf16_encode_cp cp)
                                 (decode_uri_component (drop (3 * (n - 1)) rest))))))
         | _ \<Rightarrow> Inl URIError))"
  by pat_completeness auto
termination
  by (relation "measure length") auto

subsection \<open>The code-point level specification of the encoder\<close>

text \<open>
  What \<open>encodeURIComponent\<close> promises: it reads the string as code points,
  fails on an unpaired surrogate, and replaces each code point by itself (if
  it is an unreserved ASCII character) or by the percent escapes of its UTF-8
  octets.
\<close>

definition encode_code_point :: "nat \<Rightarrow> jstr" where
  "encode_code_point cp =
     (if cp < 0x80 \<and> uri_unreserved (of_nat cp) then [of_nat cp]
      else percent_octets (utf8_encode_cp cp))"

definition uri_encode_spec :: "jstr \<Rightarrow> js_error + jstr" where
  "uri_encode_spec s =
     (case code_points s of
        None \<Rightarrow> Inl URIError
      | Some cps \<Rightarrow> Inr (concat (map encode_code_point cps)))"

text \<open>Characters allowed verbatim in an HTTP header value and printable: \<open>!\<close> to \<open>~\<close>.\<close>

definition visible_ascii :: "cu \<Rightarrow> bool" where
  "visible_ascii c \<longleftrightarrow> 0x21 \<le> unat c \<and> unat c \<le> 0x7E"

declare uri_unreserved_def [model_simps] hex_digit_def [model_simps] percent_octet_def [model_simps]
  percent_octets_def [model_simps]

subsection \<open>Lemmas\<close>

lemma take_escapes_numeral [simp]:
  "take_escapes (numeral k) s = take_escapes (Suc (pred_numeral k)) s"
  by (simp add: numeral_eq_Suc)

lemma unat_hex_digit:
  assumes "n < 16"
  shows "unat (hex_digit n) = (if n < 10 then 0x30 + n else 0x37 + n)"
proof -
  have "unat (of_nat (0x30 + n) :: cu) = 0x30 + n" "unat (of_nat (0x37 + n) :: cu) = 0x37 + n"
    using assms by (intro unat_of_nat_cu; simp)+
  then show ?thesis by (simp add: hex_digit_def)
qed

lemma hex_value_digit: "n < 16 \<Longrightarrow> hex_value (hex_digit n) = Some n"
  by (simp add: hex_value_def unat_hex_digit Let_def)

lemma parse_hex_octet_percent:
  "b < 256 \<Longrightarrow> parse_hex_octet (hex_digit (b div 16)) (hex_digit (b mod 16)) = Some b"
  by (simp add: parse_hex_octet_def hex_value_digit less_mult_imp_div_less)

lemma length_percent_octets [simp]: "length (percent_octets bs) = 3 * length bs"
  by (induction bs) (simp_all add: percent_octets_def percent_octet_def)

lemma percent_octets_Cons [simp]:
  "percent_octets (b # bs) = pct # hex_digit (b div 16) # hex_digit (b mod 16) # percent_octets bs"
  by (simp add: percent_octets_def percent_octet_def)

lemma percent_octets_Nil [simp]: "percent_octets [] = []"
  by (simp add: percent_octets_def)

lemma take_escapes_percent:
  "\<forall>b \<in> set bs. b < 256 \<Longrightarrow> take_escapes (length bs) (percent_octets bs @ rest) = Some bs"
  by (induction bs) (simp_all add: parse_hex_octet_percent)

lemma leading_ones_utf8:
  assumes "scalar_value cp" "0x80 \<le> cp"
  shows "octet_leading_ones (hd (utf8_encode_cp cp)) = length (utf8_encode_cp cp)"
  using assms by (auto simp: utf8_encode_cp_def octet_leading_ones_def scalar_value_def)

lemma decode_percent_utf8:
  assumes "scalar_value cp"
  shows "decode_uri_component (percent_octets (utf8_encode_cp cp) @ rest)
           = prepend (utf16_encode_cp cp) (decode_uri_component rest)"
proof -
  obtain b bs where e: "utf8_encode_cp cp = b # bs"
    by (cases "utf8_encode_cp cp") (auto simp: utf8_encode_cp_def split: if_splits)
  have bnd: "\<forall>x \<in> set (b # bs). x < 256"
    using utf8_encode_cp_bounds [OF assms] e by simp
  have hx: "parse_hex_octet (hex_digit (b div 16)) (hex_digit (b mod 16)) = Some b"
    using bnd by (simp add: parse_hex_octet_percent)
  show ?thesis
  proof (cases "cp < 0x80")
    case True
    then have "b = cp" "bs = []" using e by (simp_all add: utf8_encode_cp_def)
    with True hx show ?thesis
      by (cases "decode_uri_component rest") (simp_all add: e octet_leading_ones_def utf16_encode_bmp)
  next
    case False
    have n: "octet_leading_ones b = Suc (length bs)"
      using leading_ones_utf8 [OF assms] False e by simp
    have len: "2 \<le> Suc (length bs) \<and> Suc (length bs) \<le> 4"
      using utf8_encode_cp_bounds [OF assms] e False by (auto simp: utf8_encode_cp_def split: if_splits)
    have t: "take_escapes (length bs) (percent_octets bs @ rest) = Some bs"
      using bnd by (simp add: take_escapes_percent)
    have d: "utf8_decode_seq (b # bs) = Some cp"
      using utf8_decode_encode [OF assms] e by simp
    have "drop (3 * length bs) (percent_octets bs @ rest) = rest" by simp
    moreover have "bs \<noteq> []" using len by auto
    ultimately show ?thesis using hx n len t d by (simp add: e Let_def)
  qed
qed

lemma pct_not_unreserved: "\<not> uri_unreserved pct"
  by (simp add: uri_unreserved_def)

theorem decode_encode_uri_component:
  "encode_uri_component s = Inr r \<Longrightarrow> decode_uri_component r = Inr s"
proof (induction s arbitrary: r rule: encode_uri_component.induct)
  case 1
  then show ?case by simp
next
  case (2 c cs)
  show ?case
  proof (cases "uri_unreserved c")
    case True
    with "2.prems" obtain r' where r: "r = c # r'" "encode_uri_component cs = Inr r'" by auto
    have "c \<noteq> pct" using True pct_not_unreserved by metis
    with r "2.IH"(1) [OF True r(2)] show ?thesis by simp
  next
    case u: False
    show ?thesis
    proof (cases "is_lead c")
      case True
      with u "2.prems" obtain d ds r' where cs: "cs = d # ds" and t: "is_trail d" "\<not> is_trail c"
        and r: "r = percent_octets (utf8_encode_cp (surrogate_pair_cp c d)) @ r'"
        and r': "encode_uri_component ds = Inr r'"
        by (auto split: if_splits list.splits)
      have ih: "decode_uri_component r' = Inr ds" using "2.IH"(2) [OF u t(2) True cs t(1) r'] .
      have p: "utf16_encode_cp (surrogate_pair_cp c d) = [c, d] \<and> scalar_value (surrogate_pair_cp c d)"
        by (rule surrogate_pair_encode [OF True t(1)])
      with ih show ?thesis by (simp add: r cs decode_percent_utf8)
    next
      case False
      with u "2.prems" obtain r' where t: "\<not> is_trail c"
        and r: "r = percent_octets (utf8_encode_cp (unat c)) @ r'"
        and r': "encode_uri_component cs = Inr r'"
        by (auto split: if_splits)
      have ih: "decode_uri_component r' = Inr cs" using "2.IH"(3) [OF u t False r'] .
      have p: "utf16_encode_cp (unat c) = [c] \<and> scalar_value (unat c)"
        by (rule single_unit_encode [OF False t])
      with ih show ?thesis by (simp add: r decode_percent_utf8)
    qed
  qed
qed

lemma unreserved_ascii: "uri_unreserved c \<Longrightarrow> unat c < 0x80 \<and> \<not> is_lead c \<and> \<not> is_trail c"
  by (auto simp: uri_unreserved_def is_lead_def is_trail_def Let_def)
lemma code_points_Cons_single:
  "\<not> is_lead c \<Longrightarrow> \<not> is_trail c \<Longrightarrow> code_points (c # cs) = map_option (Cons (unat c)) (code_points cs)"
  by simp
lemma surrogate_pair_cp_ge: "0x10000 \<le> surrogate_pair_cp c d"
  by (simp add: surrogate_pair_cp_def)
theorem encode_uri_component_spec: "encode_uri_component s = uri_encode_spec s"
proof (induction s rule: encode_uri_component.induct)
  case 1
  then show ?case by (simp add: uri_encode_spec_def)
next
  case (2 c cs)
  show ?case
  proof (cases "uri_unreserved c")
    case True
    then have a: "unat c < 0x80" "\<not> is_lead c" "\<not> is_trail c" by (simp_all add: unreserved_ascii)
    have "encode_code_point (unat c) = [c]" using a True by (simp add: encode_code_point_def)
    with True a "2.IH"(1) [OF True] show ?thesis
      by (auto simp: uri_encode_spec_def split: option.splits)
  next
    case u: False
    show ?thesis
    proof (cases "is_trail c")
      case True
      with u show ?thesis by (simp add: uri_encode_spec_def)
    next
      case t: False
      show ?thesis
      proof (cases "is_lead c")
        case True
        have e: "encode_code_point (surrogate_pair_cp c d) = percent_octets (utf8_encode_cp (surrogate_pair_cp c d))" for d
          using surrogate_pair_cp_ge [of c d] by (simp add: encode_code_point_def)
        show ?thesis
        proof (cases cs)
          case Nil
          with u t True show ?thesis by (simp add: uri_encode_spec_def)
        next
          case (Cons d ds)
          with u t True "2.IH"(2) [OF u t True Cons] e show ?thesis
            by (auto simp: uri_encode_spec_def split: option.splits)
        qed
      next
        case False
        have "encode_code_point (unat c) = percent_octets (utf8_encode_cp (unat c))"
          using u by (auto simp: encode_code_point_def)
        with u t False "2.IH"(3) [OF u t False] show ?thesis
          by (auto simp: uri_encode_spec_def split: option.splits)
      qed
    qed
  qed
qed
lemma visible_hex_digit: "n < 16 \<Longrightarrow> visible_ascii (hex_digit n)"
  by (simp add: visible_ascii_def unat_hex_digit)
lemma visible_pct: "visible_ascii pct"
  by (simp add: visible_ascii_def)
lemma visible_percent_octets: "\<forall>b \<in> set bs. b < 256 \<Longrightarrow> list_all visible_ascii (percent_octets bs)"
  by (induction bs) (simp_all add: visible_hex_digit less_mult_imp_div_less visible_pct)
lemma visible_unreserved: "uri_unreserved c \<Longrightarrow> visible_ascii c"
  by (auto simp: uri_unreserved_def visible_ascii_def Let_def)
lemma visible_encode_code_point: "scalar_value cp \<Longrightarrow> list_all visible_ascii (encode_code_point cp)"
  using utf8_encode_cp_bounds [of cp]
  by (auto simp: encode_code_point_def visible_unreserved intro: visible_percent_octets)
theorem encode_uri_component_visible:
  "encode_uri_component s = Inr r \<Longrightarrow> list_all visible_ascii r"
proof -
  assume e: "encode_uri_component s = Inr r"
  then obtain cps where c: "code_points s = Some cps" and r: "r = concat (map encode_code_point cps)"
    by (auto simp: encode_uri_component_spec uri_encode_spec_def split: option.splits)
  have "list_all scalar_value cps" using code_points_Some [OF c] by simp
  then show ?thesis using r by (induction cps arbitrary: r) (auto simp: visible_encode_code_point)
qed
theorem encode_uri_component_unreserved:
  "list_all uri_unreserved s \<Longrightarrow> encode_uri_component s = Inr s"
  by (induction s) auto
theorem encode_uri_component_fails_iff:
  "encode_uri_component s = Inl e \<longleftrightarrow> e = URIError \<and> code_points s = None"
  by (auto simp: encode_uri_component_spec uri_encode_spec_def split: option.splits)

lemma length_utf8_encode_cp: "length (utf8_encode_cp cp) \<le> 4 \<and> (cp < 0x10000 \<longrightarrow> length (utf8_encode_cp cp) \<le> 3)"
  by (simp add: utf8_encode_cp_def)
theorem encode_uri_component_length:
  "encode_uri_component s = Inr r \<Longrightarrow> length r \<le> 9 * length s"
proof (induction s arbitrary: r rule: encode_uri_component.induct)
  case 1
  then show ?case by simp
next
  case (2 c cs)
  show ?case
  proof (cases "uri_unreserved c")
    case True
    with "2.prems" "2.IH"(1) [OF True] show ?thesis by fastforce
  next
    case u: False
    show ?thesis
    proof (cases "is_lead c")
      case True
      with u "2.prems" obtain d ds r' where cs: "cs = d # ds" and t: "is_trail d" "\<not> is_trail c"
        and r: "r = percent_octets (utf8_encode_cp (surrogate_pair_cp c d)) @ r'"
        and r': "encode_uri_component ds = Inr r'"
        by (auto split: if_splits list.splits)
      have "length r' \<le> 9 * length ds" using "2.IH"(2) [OF u t(2) True cs t(1) r'] .
      with r cs length_utf8_encode_cp [of "surrogate_pair_cp c d"] show ?thesis by simp
    next
      case False
      with u "2.prems" obtain r' where t: "\<not> is_trail c"
        and r: "r = percent_octets (utf8_encode_cp (unat c)) @ r'"
        and r': "encode_uri_component cs = Inr r'"
        by (auto split: if_splits)
      have "length r' \<le> 9 * length cs" using "2.IH"(3) [OF u t False r'] .
      with r length_utf8_encode_cp [of "unat c"] unat_cu_less [of c] show ?thesis by simp
    qed
  qed
qed
end
