(* ===== verification/JsString.thy ===== *)
theory JsString
  imports Prelude
begin

text \<open>
  \<open>String.prototype.trim\<close>, which \<open>getTranscript\<close> applies to the text the
  transcription service returns (\<open>src/app/api/route.ts\<close>, line 146). It removes
  leading and trailing code units of the ECMAScript classes WhiteSpace and
  LineTerminator. The lemmas say what is left: an infix of the input that
  neither starts nor ends with white space, empty exactly when the input is all
  white space, and unchanged by a second trim.
\<close>

definition js_whitespace :: "cu \<Rightarrow> bool" where
  "js_whitespace c \<longleftrightarrow>
     unat c \<in> set ([0x09, 0x0B, 0x0C, 0x20, 0xA0, 0xFEFF, 0x1680]
                  @ [0x2000..<0x200B] @ [0x202F, 0x205F, 0x3000]
                  @ [0x0A, 0x0D, 0x2028, 0x2029])"

definition js_trim :: "jstr \<Rightarrow> jstr" where
  "js_trim s = rev (dropWhile js_whitespace (rev (dropWhile js_whitespace s)))"

lemma dropWhile_split: "\<exists>p. xs = p @ dropWhile P xs \<and> list_all P p"
  by (intro exI [of _ "takeWhile P xs"]) (auto simp: list_all_iff dest: set_takeWhileD)

lemma dropWhile_idem [simp]: "dropWhile P (dropWhile P xs) = dropWhile P xs"
  by (induction xs) auto

theorem js_trim_infix:
  "\<exists>p q. s = p @ js_trim s @ q \<and> list_all js_whitespace p \<and> list_all js_whitespace q"
proof -
  obtain p where p: "s = p @ dropWhile js_whitespace s" "list_all js_whitespace p"
    using dropWhile_split by blast
  obtain q where q: "rev (dropWhile js_whitespace s)
      = q @ dropWhile js_whitespace (rev (dropWhile js_whitespace s))"
    "list_all js_whitespace q"
    using dropWhile_split by blast
  have "dropWhile js_whitespace s = js_trim s @ rev q"
    using arg_cong [OF q(1), of rev] by (simp add: js_trim_def)
  with p q show ?thesis by (intro exI [of _ p] exI [of _ "rev q"]) auto
qed

theorem js_trim_ends:
  assumes ne: "js_trim s \<noteq> []"
  shows "\<not> js_whitespace (hd (js_trim s)) \<and> \<not> js_whitespace (last (js_trim s))"
proof -
  define d where "d = dropWhile js_whitespace s"
  define e where "e = dropWhile js_whitespace (rev d)"
  have t: "js_trim s = rev e" by (simp add: js_trim_def d_def e_def)
  have e_ne: "e \<noteq> []" using ne t by simp
  have l: "\<not> js_whitespace (last (js_trim s))"
    using hd_dropWhile [of js_whitespace "rev d"] e_ne by (simp add: t e_def last_rev)
  obtain q where q: "rev d = q @ e"
    using dropWhile_split [of "rev d" js_whitespace] by (auto simp: e_def)
  then have dq: "d = rev e @ rev q" by (metis rev_append rev_rev_ident)
  have d_ne: "d \<noteq> []" using dq e_ne by simp
  have "hd d = hd (rev e)" using dq e_ne by simp
  moreover have "\<not> js_whitespace (hd d)"
    using hd_dropWhile [of js_whitespace s] d_ne by (simp add: d_def)
  ultimately show ?thesis using l t by simp
qed

lemma all_dropWhile_iff: "(\<forall>x \<in> set (dropWhile P xs). P x) \<longleftrightarrow> (\<forall>x \<in> set xs. P x)"
  by (induction xs) auto

theorem js_trim_Nil_iff: "js_trim s = [] \<longleftrightarrow> list_all js_whitespace s"
  by (simp add: js_trim_def list_all_iff all_dropWhile_iff)

lemma dropWhile_hd_not: "xs \<noteq> [] \<Longrightarrow> \<not> P (hd xs) \<Longrightarrow> dropWhile P xs = xs"
  by (cases xs) auto

theorem js_trim_idem: "js_trim (js_trim s) = js_trim s"
proof (cases "js_trim s = []")
  case True
  have "js_trim [] = []" by (simp add: js_trim_def)
  with True show ?thesis by simp
next
  case False
  note ends = js_trim_ends [OF False]
  have "dropWhile js_whitespace (js_trim s) = js_trim s"
    using ends False by (simp add: dropWhile_hd_not)
  moreover have "dropWhile js_whitespace (rev (js_trim s)) = rev (js_trim s)"
    using ends False by (simp add: dropWhile_hd_not hd_rev)
  ultimately show ?thesis by (simp add: js_trim_def)
qed

lemma dropWhile_append_all: "list_all P p \<Longrightarrow> dropWhile P (p @ xs) = dropWhile P xs"
  by (induction p) auto

text \<open>\<open>js_trim\<close> is determined by its specification: the infix between white-space
  ends that neither starts nor ends with white space.\<close>

theorem js_trim_unique:
  assumes "list_all js_whitespace p" "list_all js_whitespace q" "t \<noteq> []"
    "\<not> js_whitespace (hd t)" "\<not> js_whitespace (last t)"
  shows "js_trim (p @ t @ q) = t"
proof -
  have "dropWhile js_whitespace (p @ t @ q) = t @ q"
    using assms(1,3,4) by (simp add: dropWhile_append_all dropWhile_hd_not)
  moreover have "dropWhile js_whitespace (rev q @ rev t) = rev t"
    using assms(2,3,5) by (simp add: dropWhile_append_all dropWhile_hd_not hd_rev)
  ultimately show ?thesis by (simp add: js_trim_def)
qed

end
