(* ===== verification/Form.thy ===== *)
theory Form
  imports Prelude
begin

text \<open>
  Request validation (\<open>src/app/api/route.ts\<close>, lines 9--19 and 24--25). The
  handler validates \<open>await request.formData()\<close> with a \<open>zod-form-data\<close>
  schema: \<open>input\<close> is \<open>zfd.text()\<close> or \<open>zfd.file()\<close>, \<open>message\<close> is
  \<open>zfd.repeatableOfType(zfd.json(z.object({role, content})))\<close>. The library
  functions (\<open>zfd.formData\<close>'s grouping of entries, \<open>text\<close>, \<open>file\<close>,
  \<open>json\<close>, \<open>repeatable\<close>) are not code of the repository and are modelled from
  their documented behaviour; the schema itself and its use are the route's.
  JavaScript values as zod sees them are \<open>jsval\<close>; \<open>JSON.parse\<close> is a
  parameter of the validator (\<open>None\<close> for a \<open>SyntaxError\<close>), so every
  statement holds for any JSON parser.
\<close>

subsection \<open>Form data and JavaScript values\<close>

record upload =
  upload_name :: jstr
  upload_bytes :: "8 word list"

datatype form_value = FText jstr | FFile upload

type_synonym form = "(jstr \<times> form_value) list"

text \<open>JSON numbers only ever fail the schema, so their value is kept as an integer.\<close>

datatype jsval =
    JUndefined
  | JNull
  | JBool bool
  | JNum int
  | JString jstr
  | JFile upload
  | JArray "jsval list"
  | JObject "(jstr \<times> jsval) list"

type_synonym json_parser = "jstr \<Rightarrow> jsval option"

datatype role = System | User | Assistant

record chat_msg =
  role :: role
  content :: jstr

datatype input = InText jstr | InFile upload

record parsed_request =
  p_input :: input
  p_message :: "chat_msg list"

subsection \<open>zod-form-data\<close>

definition form_value_js :: "form_value \<Rightarrow> jsval" where
  "form_value_js v = (case v of FText s \<Rightarrow> JString s | FFile f \<Rightarrow> JFile f)"

text \<open>
  \<open>zfd.formData\<close> groups the entries by name: a name given once is its value,
  a name given several times an array of its values in order, a missing name
  \<open>undefined\<close>.
\<close>

definition form_field :: "form \<Rightarrow> jstr \<Rightarrow> jsval" where
  "form_field fd k =
     (case map (form_value_js \<circ> snd) (filter (\<lambda>e. fst e = k) fd) of
        [] \<Rightarrow> JUndefined
      | [v] \<Rightarrow> v
      | vs \<Rightarrow> JArray vs)"

text \<open>\<open>zfd.text()\<close>: the empty string becomes \<open>undefined\<close>, then \<open>z.string()\<close>.\<close>

definition zfd_text :: "jsval \<Rightarrow> jstr option" where
  "zfd_text v = (case v of JString s \<Rightarrow> if s = [] then None else Some s | _ \<Rightarrow> None)"

text \<open>\<open>zfd.file()\<close>: an empty file becomes \<open>undefined\<close>, then \<open>z.instanceof(File)\<close>.\<close>

definition zfd_file :: "jsval \<Rightarrow> upload option" where
  "zfd_file v =
     (case v of JFile f \<Rightarrow> if upload_bytes f = [] then None else Some f | _ \<Rightarrow> None)"

text \<open>\<open>zfd.json(s)\<close>: the empty string becomes \<open>undefined\<close>; another string is
  replaced by \<open>JSON.parse\<close> of it, or kept when it does not parse.\<close>

definition zfd_json_pre :: "json_parser \<Rightarrow> jsval \<Rightarrow> jsval" where
  "zfd_json_pre parse v =
     (case v of
        JString s \<Rightarrow>
          if s = [] then JUndefined
          else (case parse s of None \<Rightarrow> JString s | Some j \<Rightarrow> j)
      | _ \<Rightarrow> v)"

text \<open>Property lookup on a parsed object: of duplicate keys the last one counts.\<close>

definition obj_get :: "(jstr \<times> jsval) list \<Rightarrow> jstr \<Rightarrow> jsval" where
  "obj_get kvs k = (case map_of (rev kvs) k of None \<Rightarrow> JUndefined | Some v \<Rightarrow> v)"

subsection \<open>The route's schema\<close>

text \<open>\<open>z.enum(["user", "assistant"])\<close>.\<close>

definition role_enum :: "jsval \<Rightarrow> role option" where
  "role_enum v =
     (if v = JString (js ''user'') then Some User
      else if v = JString (js ''assistant'') then Some Assistant
      else None)"

text \<open>\<open>z.object({role, content})\<close>: other keys are stripped.\<close>

definition message_object :: "jsval \<Rightarrow> chat_msg option" where
  "message_object v =
     (case v of
        JObject kvs \<Rightarrow>
          (case (role_enum (obj_get kvs (js ''role'')), obj_get kvs (js ''content'')) of
             (Some r, JString c) \<Rightarrow> Some \<lparr>role = r, content = c\<rparr>
           | _ \<Rightarrow> None)
      | _ \<Rightarrow> None)"

text \<open>\<open>z.union([zfd.text(), zfd.file()])\<close>: the first alternative that accepts.\<close>

definition input_schema :: "jsval \<Rightarrow> input option" where
  "input_schema v =
     (case zfd_text v of
        Some s \<Rightarrow> Some (InText s)
      | None \<Rightarrow> map_option InFile (zfd_file v))"

text \<open>\<open>zfd.repeatable\<close>: an array as it is, \<open>undefined\<close> as the empty array,
  anything else as a one-element array; then every element must pass.\<close>

definition repeatable_items :: "jsval \<Rightarrow> jsval list" where
  "repeatable_items v = (case v of JArray vs \<Rightarrow> vs | JUndefined \<Rightarrow> [] | _ \<Rightarrow> [v])"

definition message_schema :: "json_parser \<Rightarrow> jsval \<Rightarrow> chat_msg list option" where
  "message_schema parse v =
     those (map (\<lambda>x. message_object (zfd_json_pre parse x)) (repeatable_items v))"

text \<open>\<open>schema.safeParse(formData)\<close>: \<open>Some\<close> of the data when \<open>success\<close>.\<close>

definition safe_parse :: "json_parser \<Rightarrow> form \<Rightarrow> parsed_request option" where
  "safe_parse parse fd =
     (case input_schema (form_field fd (js ''input'')) of
        None \<Rightarrow> None
      | Some i \<Rightarrow>
          (case message_schema parse (form_field fd (js ''message'')) of
             None \<Rightarrow> None
           | Some ms \<Rightarrow> Some \<lparr>p_input = i, p_message = ms\<rparr>))"

declare form_value_js_def [model_simps] form_field_def [model_simps] zfd_text_def [model_simps]
  zfd_file_def [model_simps] zfd_json_pre_def [model_simps] obj_get_def [model_simps]
  role_enum_def [model_simps] message_object_def [model_simps] input_schema_def [model_simps]
  repeatable_items_def [model_simps] message_schema_def [model_simps] safe_parse_def [model_simps]

subsection \<open>Lemmas\<close>



lemma form_field_none: "k \<notin> fst ` set fd \<Longrightarrow> form_field fd k = JUndefined"
proof -
  assume "k \<notin> fst ` set fd"
  then have "filter (\<lambda>e. fst e = k) fd = []"
    by (auto simp: filter_empty_conv)
  then show ?thesis by (simp add: form_field_def)
qed

lemma input_schema_Some:
  "input_schema v = Some i \<Longrightarrow>
     (\<exists>s. v = JString s \<and> s \<noteq> [] \<and> i = InText s) \<or> (\<exists>f. v = JFile f \<and> upload_bytes f \<noteq> [] \<and> i = InFile f)"
  by (cases v) (auto simp: input_schema_def zfd_text_def zfd_file_def split: if_splits)

lemma role_enum_Some: "role_enum v = Some r \<Longrightarrow> r \<in> {User, Assistant}"
  by (simp add: role_enum_def split: if_splits)

lemma message_object_role: "message_object v = Some m \<Longrightarrow> role m \<in> {User, Assistant}"
proof (cases v)
  case (JObject kvs)
  assume "message_object v = Some m"
  then obtain r c where "role_enum (obj_get kvs (js ''role'')) = Some r" "m = \<lparr>role = r, content = c\<rparr>"
    using JObject by (auto simp: message_object_def split: option.split_asm jsval.split_asm)
  then show ?thesis by (auto dest: role_enum_Some)
qed (simp_all add: message_object_def)

lemma those_Some_iff: "those xs = Some ys \<longleftrightarrow> xs = map Some ys"
proof (induction xs arbitrary: ys)
  case Nil
  then show ?case by auto
next
  case (Cons x xs)
  then show ?case by (cases x) (auto split: option.splits)
qed

lemma message_schema_Some:
  "message_schema parse v = Some ms \<longleftrightarrow>
     map (\<lambda>x. message_object (zfd_json_pre parse x)) (repeatable_items v) = map Some ms"
  by (simp add: message_schema_def those_Some_iff)

lemma those_Some_set: "those xs = Some ys \<Longrightarrow> y \<in> set ys \<Longrightarrow> Some y \<in> set xs"
  by (induction xs arbitrary: ys) (auto split: option.split_asm)

lemma message_schema_item:
  "message_schema parse v = Some ms \<Longrightarrow> m \<in> set ms \<Longrightarrow>
     \<exists>x \<in> set (repeatable_items v). message_object (zfd_json_pre parse x) = Some m"
  unfolding message_schema_def by (drule those_Some_set) auto

lemma safe_parse_Some:
  "safe_parse parse fd = Some d \<longleftrightarrow>
     input_schema (form_field fd (js ''input'')) = Some (p_input d)
     \<and> message_schema parse (form_field fd (js ''message'')) = Some (p_message d)"
  by (auto simp: safe_parse_def split: option.split)

theorem safe_parse_roles:
  assumes "safe_parse parse fd = Some d" "m \<in> set (p_message d)"
  shows "role m \<in> {User, Assistant}"
proof -
  have "message_schema parse (form_field fd (js ''message'')) = Some (p_message d)"
    using assms(1) by (simp add: safe_parse_Some)
  then obtain x where "message_object (zfd_json_pre parse x) = Some m"
    using assms(2) by (blast dest: message_schema_item)
  then show ?thesis by (rule message_object_role)
qed

theorem safe_parse_input_nonempty:
  "safe_parse parse fd = Some d \<Longrightarrow>
     (\<forall>s. p_input d = InText s \<longrightarrow> s \<noteq> []) \<and> (\<forall>f. p_input d = InFile f \<longrightarrow> upload_bytes f \<noteq> [])"
  by (auto simp: safe_parse_Some dest!: input_schema_Some)

theorem safe_parse_missing_input:
  "js ''input'' \<notin> fst ` set fd \<Longrightarrow> safe_parse parse fd = None"
  by (simp add: safe_parse_def form_field_none input_schema_def zfd_text_def zfd_file_def)


lemma those_None: "None \<in> set xs \<Longrightarrow> those xs = None"
  by (induction xs) (auto split: option.split)

lemma form_field_items:
  "(k, v) \<in> set fd \<Longrightarrow> form_value_js v \<in> set (repeatable_items (form_field fd k))"
proof -
  assume kv: "(k, v) \<in> set fd"
  define vs where "vs = map (form_value_js \<circ> snd) (filter (\<lambda>e. fst e = k) fd)"
  have mem: "form_value_js v \<in> set vs" using kv by (force simp: vs_def)
  show ?thesis
  proof (cases vs rule: remdups_adj.cases)
    case 1
    with mem show ?thesis by simp
  next
    case (2 x)
    with mem show ?thesis
      by (cases v) (auto simp: form_field_def vs_def [symmetric] repeatable_items_def form_value_js_def)
  next
    case (3 x y ys)
    with mem show ?thesis by (simp add: form_field_def vs_def [symmetric] repeatable_items_def)
  qed
qed

theorem safe_parse_rejects_role:
  assumes "(js ''message'', FText s) \<in> set fd" "parse s = Some (JObject kvs)"
    "role_enum (obj_get kvs (js ''role'')) = None"
  shows "safe_parse parse fd = None"
proof -
  have "JString s \<in> set (repeatable_items (form_field fd (js ''message'')))"
    using form_field_items [OF assms(1)] by (simp add: form_value_js_def)
  moreover have "message_object (zfd_json_pre parse (JString s)) = None"
    using assms(2,3) by (simp add: zfd_json_pre_def message_object_def)
  ultimately have "message_schema parse (form_field fd (js ''message'')) = None"
    unfolding message_schema_def by (intro those_None) force
  then show ?thesis by (simp add: safe_parse_def split: option.split)
qed

end
