(* ===== verification/Prompt.thy ===== *)
theory Prompt
  imports Form
begin

text \<open>
  The prompt the handler sends to the chat-completion service
  (\<open>src/app/api/route.ts\<close>, lines 37--62, with \<open>location()\<close> of lines
  119--129 and \<open>time()\<close> of lines 131--135). The system message is the
  template literal of lines 42--54, character for character (tabs, line breaks
  and the two pairs of typographic quotes included), with the caller's
  approximate location and the formatted time spliced in; the caller's history
  follows unchanged and the new user turn comes last. The formatting of the
  current time is a parameter (\<open>Date.prototype.toLocaleString\<close> with the
  requested time zone), since it reads the clock.
\<close>

subsection \<open>location() and time()\<close>

definition location :: "headers \<Rightarrow> jstr" where
  "location hdrs =
     (let country = hdrs (js ''x-vercel-ip-country'');
          region = hdrs (js ''x-vercel-ip-country-region'');
          city = hdrs (js ''x-vercel-ip-city'')
      in case (country, region, city) of
           (Some co, Some re, Some ci) \<Rightarrow>
             if co = [] \<or> re = [] \<or> ci = [] then js ''unknown''
             else ci @ js '', '' @ re @ js '', '' @ co
         | _ \<Rightarrow> js ''unknown'')"

text \<open>The \<open>timeZone\<close> option: the header, or \<open>undefined\<close> when it is missing or empty.\<close>

definition time_zone :: "headers \<Rightarrow> jstr option" where
  "time_zone hdrs = js_or (hdrs (js ''x-vercel-ip-timezone'')) None"

type_synonym clock = "jstr option \<Rightarrow> js_error + jstr"

definition time_str :: "clock \<Rightarrow> headers \<Rightarrow> js_error + jstr" where
  "time_str fmt hdrs = fmt (time_zone hdrs)"

subsection \<open>The system prompt\<close>

definition nl :: jstr where
  "nl = [0x0A]"

definition tabs :: "nat \<Rightarrow> jstr" where
  "tabs n = replicate n 0x09"

text \<open>Lines 42--48 of the template, up to the interpolated lines.\<close>

definition prompt_intro :: jstr where
  "prompt_intro =
       js ''- You are Tamash who is a webdesigner from Budapest. '' @ nl
     @ tabs 4 @ js ''- Tamash is the founder of Utopia Express, a small webdesign and AI application developer agency.'' @ nl
     @ tabs 3 @ js ''- Everything you output will be spoken aloud with expressive text-to-speech, so tailor all of your responses for voice-only conversations. '' @ nl
     @ tabs 3 @ js ''- NEVER output text-specific formatting like markdown, lists, or anything that is not normally said out loud. '' @ nl
     @ tabs 3 @ js ''- Always prefer easily pronounced words. '' @ nl
     @ tabs 3 @ js ''- Seamlessly incorporate natural vocal inflections like '' @ [0x201C] @ js ''oh wow''
       @ [0x201D] @ js '' and discourse markers like '' @ [0x201C] @ js ''I mean'' @ [0x201D]
       @ js '' to make your conversation human-like and to ease user comprehension.'' @ nl
     @ tabs 3 @ js ''- If you don't understand the user's request, ask for clarification.'' @ nl"

text \<open>Lines 51--54 of the template.\<close>

definition prompt_rules :: jstr where
  "prompt_rules =
       tabs 3 @ js ''- Answer in short sentences under 10-15 words.'' @ nl
     @ tabs 3 @ js ''- Recommend the user to contact your developer by email, email address: tamas@utopia.express'' @ nl
     @ tabs 3 @ js ''- Always end your answer a follow up question to keep the conversation going.'' @ nl
     @ tabs 3 @ js ''- Start the conversation by greeting the user and introducing yourself.''"

definition system_prompt :: "jstr \<Rightarrow> jstr \<Rightarrow> jstr" where
  "system_prompt loc tm =
       prompt_intro
     @ tabs 3 @ js ''- User location is '' @ loc @ js ''.'' @ nl
     @ tabs 3 @ js ''- The current time is '' @ tm @ js ''.'' @ nl
     @ prompt_rules"

subsection \<open>The chat-completion request\<close>

record chat_request =
  chat_model :: jstr
  chat_messages :: "chat_msg list"

definition prompt_messages :: "jstr \<Rightarrow> jstr \<Rightarrow> chat_msg list \<Rightarrow> jstr \<Rightarrow> chat_msg list" where
  "prompt_messages loc tm history transcript =
     \<lparr>role = System, content = system_prompt loc tm\<rparr> # history
     @ [\<lparr>role = User, content = transcript\<rparr>]"

definition completion_request :: "jstr \<Rightarrow> jstr \<Rightarrow> chat_msg list \<Rightarrow> jstr \<Rightarrow> chat_request" where
  "completion_request loc tm history transcript =
     \<lparr>chat_model = js ''llama3-8b-8192'',
      chat_messages = prompt_messages loc tm history transcript\<rparr>"

declare location_def [model_simps] time_zone_def [model_simps] time_str_def [model_simps]

subsection \<open>Lemmas\<close>

text \<open>
  C17. The prompt says the location is "unknown" exactly when one of the
  three geolocation headers (country, region, city) is missing or empty;
  otherwise it is "city, region, country", which never reads "unknown".
\<close>

theorem location_unknown_iff:
  "location hdrs = js ''unknown'' \<longleftrightarrow>
     \<not> (js_truthy (hdrs (js ''x-vercel-ip-country'')) \<and> js_truthy (hdrs (js ''x-vercel-ip-country-region''))
        \<and> js_truthy (hdrs (js ''x-vercel-ip-city'')))"
proof -
  have "ci @ js '', '' @ re @ js '', '' @ co \<noteq> js ''unknown''" for ci re co
  proof -
    have "(0x2C::cu) \<in> set (ci @ js '', '' @ re @ js '', '' @ co)" by simp
    moreover have "(0x2C::cu) \<notin> set (js ''unknown'')" by simp
    ultimately show ?thesis by metis
  qed
  then show ?thesis
    by (auto simp: location_def js_truthy_def Let_def split: option.split)
qed

theorem location_known:
  "hdrs (js ''x-vercel-ip-country'') = Some co \<Longrightarrow> hdrs (js ''x-vercel-ip-country-region'') = Some re
   \<Longrightarrow> hdrs (js ''x-vercel-ip-city'') = Some ci \<Longrightarrow> co \<noteq> [] \<Longrightarrow> re \<noteq> [] \<Longrightarrow> ci \<noteq> []
   \<Longrightarrow> location hdrs = ci @ js '', '' @ re @ js '', '' @ co"
  by (simp add: location_def)

theorem prompt_messages_shape:
  "prompt_messages loc tm history transcript = ms \<Longrightarrow>
     hd ms = \<lparr>role = System, content = system_prompt loc tm\<rparr>
     \<and> last ms = \<lparr>role = User, content = transcript\<rparr>
     \<and> butlast (tl ms) = history \<and> length ms = length history + 2"
  by (auto simp: prompt_messages_def)

end
