(* ===== verification/Handler.thy ===== *)
theory Handler
  imports Uri JsString Prompt
begin

text \<open>
  The route handler \<open>POST\<close> of \<open>src/app/api/route.ts\<close> and its helper
  \<open>getTranscript\<close>. The three hosted services (speech-to-text, chat completion,
  text-to-speech), the clock formatting of \<open>time()\<close> and \<open>JSON.parse\<close> are the
  fields of a \<open>services\<close> record, so the handler is a function of the services
  and the request, and every statement holds for all behaviours of the services.
  A run of the handler yields its outcome (a response, or an exception that
  escapes as an unhandled rejection), the externally visible effects in the
  order the code performs them (console timers, service calls, error log), and
  the callbacks deferred with \<open>after()\<close>. The code's sequential blocks are the
  stage functions \<open>respond_stage\<close> (lines 104--116), \<open>synth_stage\<close> (lines
  69--102), \<open>reply_stage\<close> (lines 30--67) and \<open>POST\<close> (lines 21--28), each
  calling the next.
\<close>

subsection \<open>Services, requests, effects and outcomes\<close>

record tts_request =
  tts_method :: jstr
  tts_version :: jstr
  tts_content_type :: jstr
  tts_model :: jstr
  tts_transcript :: "jstr option"
  tts_voice_mode :: jstr
  tts_voice_id :: jstr
  tts_container :: jstr
  tts_encoding :: jstr
  tts_sample_rate :: nat
  tts_api_key :: jstr

record tts_response =
  tts_ok :: bool
  tts_body :: "8 word list"
  tts_error_text :: jstr

text \<open>
  \<open>complete\<close> returns the \<open>message.content\<close> of each of the completion's
  \<open>choices\<close> (\<open>None\<close> for a \<open>null\<close> content); \<open>Inl\<close> is a thrown error.
\<close>

record services =
  transcribe :: "upload \<Rightarrow> js_error + jstr"
  complete :: "chat_request \<Rightarrow> js_error + jstr option list"
  synthesize :: "tts_request \<Rightarrow> js_error + tts_response"
  locale_time :: clock
  json_parse :: json_parser
  cartesia_key :: "jstr option"

record request =
  req_headers :: headers
  req_form :: "form option"

datatype event =
    TimeStart jstr
  | TimeEnd jstr
  | LogError jstr
  | TranscribeCall upload
  | ChatCall chat_request
  | TtsCall tts_request

datatype body = TextBody jstr | AudioStream "8 word list"

record response =
  status :: nat
  body :: body
  resp_headers :: "(jstr \<times> jstr) list"

datatype outcome = Respond response | Throw js_error

record run =
  outcome :: outcome
  effects :: "event list"
  deferred :: "event list"

definition text_response :: "nat \<Rightarrow> string \<Rightarrow> response" where
  "text_response st msg = \<lparr>status = st, body = TextBody (js msg), resp_headers = []\<rparr>"

definition prefix_effects :: "event list \<Rightarrow> run \<Rightarrow> run" where
  "prefix_effects ev r = r\<lparr>effects := ev @ effects r\<rparr>"

text \<open>\<open>"stage " + request.headers.get("x-vercel-id") || "local"\<close>: \<open>+\<close> binds
  tighter than \<open>||\<close>, and a missing header prints as \<open>"null"\<close>.\<close>

definition timer_label :: "string \<Rightarrow> headers \<Rightarrow> jstr" where
  "timer_label stage hdrs = js_or_str (js stage @ js_str_of (hdrs (js ''x-vercel-id''))) (js ''local'')"

subsection \<open>getTranscript\<close>

definition get_transcript :: "services \<Rightarrow> input \<Rightarrow> jstr option \<times> event list" where
  "get_transcript sv i =
     (case i of
        InText s \<Rightarrow> (Some s, [])
      | InFile f \<Rightarrow>
          (case transcribe sv f of
             Inl _ \<Rightarrow> (None, [TranscribeCall f])
           | Inr text \<Rightarrow>
               (let t = js_trim text in (if t = [] then None else Some t), [TranscribeCall f])))"

subsection \<open>The stages of POST\<close>

definition respond_stage :: "headers \<Rightarrow> jstr \<Rightarrow> jstr option \<Rightarrow> tts_response \<Rightarrow> run" where
  "respond_stage hdrs transcript response voice =
     (let l = timer_label ''stream '' hdrs;
          ev = [TimeStart l];
          later = [TimeEnd l]
      in case encode_uri_component transcript of
           Inl e \<Rightarrow> \<lparr>outcome = Throw e, effects = ev, deferred = later\<rparr>
         | Inr xt \<Rightarrow>
             (case encode_uri_component (js_str_of response) of
                Inl e \<Rightarrow> \<lparr>outcome = Throw e, effects = ev, deferred = later\<rparr>
              | Inr xr \<Rightarrow>
                  \<lparr>outcome = Respond \<lparr>status = 200, body = AudioStream (tts_body voice),
                     resp_headers = [(js ''X-Transcript'', xt), (js ''X-Response'', xr)]\<rparr>,
                   effects = ev, deferred = later\<rparr>))"

definition tts_request_of :: "jstr option \<Rightarrow> jstr option \<Rightarrow> tts_request" where
  "tts_request_of key response =
     \<lparr>tts_method = js ''POST'', tts_version = js ''2024-06-30'',
      tts_content_type = js ''application/json'',
      tts_model = js ''sonic-multilingual'', tts_transcript = response,
      tts_voice_mode = js ''id'', tts_voice_id = js ''82fee20d-09de-4852-b2fb-5944addc0e62'',
      tts_container = js ''raw'', tts_encoding = js ''pcm_f32le'', tts_sample_rate = 24000,
      tts_api_key = (case key of None \<Rightarrow> js ''undefined'' | Some k \<Rightarrow> k)\<rparr>"

definition synth_stage :: "services \<Rightarrow> headers \<Rightarrow> jstr \<Rightarrow> jstr option \<Rightarrow> run" where
  "synth_stage sv hdrs transcript response =
     (let l = timer_label ''cartesia request '' hdrs;
          treq = tts_request_of (cartesia_key sv) response
      in case synthesize sv treq of
           Inl e \<Rightarrow> \<lparr>outcome = Throw e, effects = [TimeStart l, TtsCall treq], deferred = []\<rparr>
         | Inr voice \<Rightarrow>
             (let ev = [TimeStart l, TtsCall treq, TimeEnd l] in
              if \<not> tts_ok voice then
                \<lparr>outcome = Respond (text_response 500 ''Voice synthesis failed''),
                 effects = ev @ [LogError (tts_error_text voice)], deferred = []\<rparr>
              else prefix_effects ev (respond_stage hdrs transcript response voice)))"

definition reply_stage :: "services \<Rightarrow> headers \<Rightarrow> chat_msg list \<Rightarrow> jstr \<Rightarrow> run" where
  "reply_stage sv hdrs history transcript =
     (let ev = [TimeEnd (timer_label ''transcribe '' hdrs),
                TimeStart (timer_label ''text completion '' hdrs)]
      in case time_str (locale_time sv) hdrs of
           Inl e \<Rightarrow> \<lparr>outcome = Throw e, effects = ev, deferred = []\<rparr>
         | Inr tm \<Rightarrow>
             (let creq = completion_request (location hdrs) tm history transcript in
              case complete sv creq of
                Inl e \<Rightarrow> \<lparr>outcome = Throw e, effects = ev @ [ChatCall creq], deferred = []\<rparr>
              | Inr [] \<Rightarrow> \<lparr>outcome = Throw TypeError, effects = ev @ [ChatCall creq], deferred = []\<rparr>
              | Inr (response # _) \<Rightarrow>
                  prefix_effects (ev @ [ChatCall creq, TimeEnd (timer_label ''text completion '' hdrs)])
                    (synth_stage sv hdrs transcript response)))"

definition POST :: "services \<Rightarrow> request \<Rightarrow> run" where
  "POST sv req =
     (let hdrs = req_headers req;
          ev = [TimeStart (timer_label ''transcribe '' hdrs)]
      in case req_form req of
           None \<Rightarrow> \<lparr>outcome = Throw TypeError, effects = ev, deferred = []\<rparr>
         | Some fd \<Rightarrow>
             (case safe_parse (json_parse sv) fd of
                None \<Rightarrow> \<lparr>outcome = Respond (text_response 400 ''Invalid request''),
                         effects = ev, deferred = []\<rparr>
              | Some d \<Rightarrow>
                  (case get_transcript sv (p_input d) of
                     (tr, ev1) \<Rightarrow>
                       (case tr of
                          Some transcript \<Rightarrow>
                            if transcript = [] then
                              \<lparr>outcome = Respond (text_response 400 ''Invalid audio''),
                               effects = ev @ ev1, deferred = []\<rparr>
                            else prefix_effects (ev @ ev1) (reply_stage sv hdrs (p_message d) transcript)
                        | None \<Rightarrow>
                            \<lparr>outcome = Respond (text_response 400 ''Invalid audio''),
                             effects = ev @ ev1, deferred = []\<rparr>))))"

subsection \<open>Projections of a run\<close>

text \<open>Which service a recorded effect calls: 1 transcription, 2 chat completion, 3 speech synthesis.\<close>


fun call_stage :: "event \<Rightarrow> nat option" where
  "call_stage (TranscribeCall _) = Some 1"
| "call_stage (ChatCall _) = Some 2"
| "call_stage (TtsCall _) = Some 3"
| "call_stage _ = None"

abbreviation stage_calls :: "run \<Rightarrow> nat list" where
  "stage_calls r \<equiv> List.map_filter call_stage (effects r)"

declare text_response_def [model_simps] get_transcript_def [model_simps] timer_label_def [model_simps]

subsection \<open>Lemmas\<close>

lemma map_filter_append [simp]: "List.map_filter f (xs @ ys) = List.map_filter f xs @ List.map_filter f ys"
  by (simp add: List.map_filter_def)
lemma map_filter_Cons [simp]: "List.map_filter f (x # xs) = (case f x of None \<Rightarrow> List.map_filter f xs | Some y \<Rightarrow> y # List.map_filter f xs)"
  by (simp add: List.map_filter_def split: option.split)
lemma map_filter_Nil [simp]: "List.map_filter f [] = []"
  by (simp add: List.map_filter_def)

lemma effects_prefix [simp]: "effects (prefix_effects ev r) = ev @ effects r"
  by (simp add: prefix_effects_def)

lemma respond_stage_calls: "stage_calls (respond_stage hdrs t r v) = []"
  by (simp add: respond_stage_def Let_def split: sum.split)

lemma synth_stage_calls: "stage_calls (synth_stage sv hdrs t r) = [3]"
  by (simp add: synth_stage_def Let_def respond_stage_calls split: sum.split)

lemma reply_stage_calls: "stage_calls (reply_stage sv hdrs h t) \<in> {[], [2], [2, 3]}"
  by (simp add: reply_stage_def Let_def synth_stage_calls
      split: sum.split list.split)

lemma get_transcript_calls:
  "List.map_filter call_stage (snd (get_transcript sv i)) \<in> {[], [1]}"
  by (simp add: get_transcript_def Let_def split: input.split sum.split)

lemma POST_form_none:
  "req_form req = None \<Longrightarrow>
     POST sv req = \<lparr>outcome = Throw TypeError,
       effects = [TimeStart (timer_label ''transcribe '' (req_headers req))], deferred = []\<rparr>"
  by (simp add: POST_def Let_def)

lemma POST_invalid:
  "req_form req = Some fd \<Longrightarrow> safe_parse (json_parse sv) fd = None \<Longrightarrow>
     POST sv req = \<lparr>outcome = Respond (text_response 400 ''Invalid request''),
       effects = [TimeStart (timer_label ''transcribe '' (req_headers req))], deferred = []\<rparr>"
  by (simp add: POST_def Let_def)

lemma POST_valid:
  assumes "req_form req = Some fd" "safe_parse (json_parse sv) fd = Some d"
    "get_transcript sv (p_input d) = (tr, ev1)"
  shows "POST sv req =
     (let ev = [TimeStart (timer_label ''transcribe '' (req_headers req))] @ ev1 in
      case tr of
        Some t \<Rightarrow>
          if t = [] then \<lparr>outcome = Respond (text_response 400 ''Invalid audio''), effects = ev, deferred = []\<rparr>
          else prefix_effects ev (reply_stage sv (req_headers req) (p_message d) t)
      | None \<Rightarrow> \<lparr>outcome = Respond (text_response 400 ''Invalid audio''), effects = ev, deferred = []\<rparr>)"
  using assms by (cases tr) (simp_all add: POST_def Let_def)

text \<open>
  C2. Whatever the request and whatever the services answer, the handler calls
  each service at most once and in pipeline order: the sequence of calls it
  makes (1 transcription, 2 chat completion, 3 speech synthesis) is one of the
  prefixes of 1-2-3 or of 2-3.
\<close>

theorem POST_calls:
  "stage_calls (POST sv req) \<in> {[], [1], [2], [2, 3], [1, 2], [1, 2, 3]}"
proof (cases "req_form req")
  case None
  then show ?thesis by (simp add: POST_form_none)
next
  case (Some fd)
  show ?thesis
  proof (cases "safe_parse (json_parse sv) fd")
    case None
    with Some show ?thesis by (simp add: POST_invalid)
  next
    case (Some d)
    obtain tr ev1 where gt: "get_transcript sv (p_input d) = (tr, ev1)" by fastforce
    have g: "List.map_filter call_stage ev1 \<in> {[], [1]}"
      using get_transcript_calls [of sv "p_input d"] gt by simp
    show ?thesis
    proof (cases tr)
      case None
      with POST_valid [OF \<open>req_form req = Some fd\<close> Some gt] g show ?thesis by auto
    next
      case (Some t)
      have r: "stage_calls (reply_stage sv (req_headers req) (p_message d) t) \<in> {[], [2], [2, 3]}"
        by (rule reply_stage_calls)
      with POST_valid [OF \<open>req_form req = Some fd\<close> \<open>safe_parse (json_parse sv) fd = Some d\<close> gt] g Some
      show ?thesis by (auto simp: Let_def)
    qed
  qed
qed


lemma get_transcript_text [simp]: "get_transcript sv (InText s) = (Some s, [])"
  by (simp add: get_transcript_def)

lemma encode_uri_component_Inr:
  "code_points s \<noteq> None \<Longrightarrow> \<exists>x. encode_uri_component s = Inr x \<and> decode_uri_component x = Inr s"
  by (metis decode_encode_uri_component encode_uri_component_fails_iff sum.exhaust)

lemma respond_stage_ok:
  assumes "code_points t \<noteq> None" "code_points (js_str_of r) \<noteq> None"
  shows "\<exists>xt xr. outcome (respond_stage hdrs t r voice) =
     Respond \<lparr>status = 200, body = AudioStream (tts_body voice),
              resp_headers = [(js ''X-Transcript'', xt), (js ''X-Response'', xr)]\<rparr>
     \<and> decode_uri_component xt = Inr t \<and> decode_uri_component xr = Inr (js_str_of r)"
proof -
  obtain xt where xt: "encode_uri_component t = Inr xt" "decode_uri_component xt = Inr t"
    using encode_uri_component_Inr [OF assms(1)] by blast
  obtain xr where xr: "encode_uri_component (js_str_of r) = Inr xr"
      "decode_uri_component xr = Inr (js_str_of r)"
    using encode_uri_component_Inr [OF assms(2)] by blast
  show ?thesis using xt xr by (simp add: respond_stage_def Let_def)
qed

lemma outcome_prefix [simp]: "outcome (prefix_effects ev r) = outcome r"
  by (simp add: prefix_effects_def)

lemma synth_stage_ok:
  "synthesize sv (tts_request_of (cartesia_key sv) r) = Inr voice \<Longrightarrow> tts_ok voice \<Longrightarrow>
     synth_stage sv hdrs t r =
       prefix_effects [TimeStart (timer_label ''cartesia request '' hdrs),
                       TtsCall (tts_request_of (cartesia_key sv) r),
                       TimeEnd (timer_label ''cartesia request '' hdrs)]
         (respond_stage hdrs t r voice)"
  by (simp add: synth_stage_def Let_def)

lemma reply_stage_ok:
  "time_str (locale_time sv) hdrs = Inr tm \<Longrightarrow>
   complete sv (completion_request (location hdrs) tm h t) = Inr (r # rs) \<Longrightarrow>
     reply_stage sv hdrs h t =
       prefix_effects [TimeEnd (timer_label ''transcribe '' hdrs),
                       TimeStart (timer_label ''text completion '' hdrs),
                       ChatCall (completion_request (location hdrs) tm h t),
                       TimeEnd (timer_label ''text completion '' hdrs)]
         (synth_stage sv hdrs t r)"
  by (simp add: reply_stage_def Let_def)

text \<open>
  C1. A valid request with a text input, on which the clock, the chat service and
  the speech service succeed, is answered with status 200, the synthesized audio
  as body, and the headers \<open>X-Transcript\<close> and \<open>X-Response\<close>, which
  \<open>decodeURIComponent\<close> turns back into exactly the submitted text and the
  model's reply (when both are well-formed UTF-16).
\<close>

theorem POST_text_roundtrip:
  assumes "req_form req = Some fd" "safe_parse (json_parse sv) fd = Some d" "p_input d = InText s"
    "time_str (locale_time sv) (req_headers req) = Inr tm"
    "complete sv (completion_request (location (req_headers req)) tm (p_message d) s) = Inr (Some r # rs)"
    "synthesize sv (tts_request_of (cartesia_key sv) (Some r)) = Inr voice" "tts_ok voice"
    "code_points s \<noteq> None" "code_points r \<noteq> None"
  shows "\<exists>xt xr. outcome (POST sv req) =
     Respond \<lparr>status = 200, body = AudioStream (tts_body voice),
              resp_headers = [(js ''X-Transcript'', xt), (js ''X-Response'', xr)]\<rparr>
     \<and> decode_uri_component xt = Inr s \<and> decode_uri_component xr = Inr r"
proof -
  have "s \<noteq> []" using safe_parse_input_nonempty [OF assms(2)] assms(3) by simp
  then have "outcome (POST sv req) = outcome (respond_stage (req_headers req) s (Some r) voice)"
    using POST_valid [OF assms(1,2)] assms(3-7)
    by (simp add: Let_def reply_stage_ok synth_stage_ok)
  with respond_stage_ok [of s "Some r" "req_headers req" voice] assms(8,9) show ?thesis
    by (simp add: js_str_of_def)
qed

lemma POST_valid_text:
  "req_form req = Some fd \<Longrightarrow> safe_parse (json_parse sv) fd = Some d \<Longrightarrow> p_input d = InText s \<Longrightarrow>
   POST sv req = prefix_effects [TimeStart (timer_label ''transcribe '' (req_headers req))]
                   (reply_stage sv (req_headers req) (p_message d) s)"
  using safe_parse_input_nonempty [of "json_parse sv" fd d]
  by (simp add: POST_def Let_def)

lemma get_transcript_Some:
  assumes "safe_parse (json_parse sv) fd = Some d" "get_transcript sv (p_input d) = (Some t, tev)"
  shows "t \<noteq> [] \<and> List.map_filter call_stage tev = (case p_input d of InText _ \<Rightarrow> [] | InFile _ \<Rightarrow> [1])"
proof (cases "p_input d")
  case (InText s)
  then show ?thesis using assms safe_parse_input_nonempty [OF assms(1)] by simp
next
  case (InFile f)
  then show ?thesis using assms by (auto simp: get_transcript_def Let_def split: sum.splits if_splits)
qed

lemma POST_valid_Some:
  assumes "req_form req = Some fd" "safe_parse (json_parse sv) fd = Some d"
    "get_transcript sv (p_input d) = (Some t, tev)"
  shows "POST sv req = prefix_effects (TimeStart (timer_label ''transcribe '' (req_headers req)) # tev)
                         (reply_stage sv (req_headers req) (p_message d) t)"
  using POST_valid [OF assms] get_transcript_Some [OF assms(2,3)] by (simp add: Let_def)

lemma stage_calls_prefix:
  "stage_calls (prefix_effects (TimeStart l # tev) r) = List.map_filter call_stage tev @ stage_calls r"
  by simp

text \<open>
  C3. A form that the schema rejects is answered with status 400 and the body
  "Invalid request", and no hosted service is called.
\<close>

theorem POST_invalid_request:
  "req_form req = Some fd \<Longrightarrow> safe_parse (json_parse sv) fd = None \<Longrightarrow>
     outcome (POST sv req) = Respond (text_response 400 ''Invalid request'') \<and> stage_calls (POST sv req) = []"
  by (simp add: POST_invalid)

text \<open>
  C8. A form without an \<open>input\<close> field is answered with status 400 and
  "Invalid request".
\<close>

theorem POST_missing_input:
  "req_form req = Some fd \<Longrightarrow> js ''input'' \<notin> fst ` set fd \<Longrightarrow>
     outcome (POST sv req) = Respond (text_response 400 ''Invalid request'')"
  by (simp add: POST_invalid safe_parse_missing_input)

text \<open>
  C9. A form with a \<open>message\<close> entry that parses to an object whose
  \<open>role\<close> is neither the string "user" nor the string "assistant" (for
  instance "system", or a missing role) is answered with status 400 and
  "Invalid request".
\<close>

theorem POST_bad_role:
  "req_form req = Some fd \<Longrightarrow> (js ''message'', FText s) \<in> set fd \<Longrightarrow>
   json_parse sv s = Some (JObject kvs) \<Longrightarrow>
   obj_get kvs (js ''role'') \<notin> {JString (js ''user''), JString (js ''assistant'')} \<Longrightarrow>
     outcome (POST sv req) = Respond (text_response 400 ''Invalid request'')"
  by (simp add: POST_invalid safe_parse_rejects_role role_enum_def)

lemma get_transcript_file:
  "get_transcript sv (InFile f) =
     (case transcribe sv f of
        Inl _ \<Rightarrow> (None, [TranscribeCall f])
      | Inr text \<Rightarrow> (if js_trim text = [] then None else Some (js_trim text), [TranscribeCall f]))"
  by (simp add: get_transcript_def Let_def split: sum.split)

text \<open>
  C5. An audio input whose transcription fails, or yields only white space, is
  answered with status 400 and "Invalid audio"; the transcription service is the
  only service called.
\<close>

theorem POST_blank_audio:
  assumes "req_form req = Some fd" "safe_parse (json_parse sv) fd = Some d" "p_input d = InFile f"
    "(\<exists>e. transcribe sv f = Inl e) \<or> (\<exists>t. transcribe sv f = Inr t \<and> list_all js_whitespace t)"
  shows "outcome (POST sv req) = Respond (text_response 400 ''Invalid audio'')
         \<and> stage_calls (POST sv req) = [1]"
proof -
  have "fst (get_transcript sv (InFile f)) = None \<and> snd (get_transcript sv (InFile f)) = [TranscribeCall f]"
    using assms(4) by (auto simp: get_transcript_file js_trim_Nil_iff)
  then obtain ev1 where gt: "get_transcript sv (p_input d) = (None, ev1)" "ev1 = [TranscribeCall f]"
    using assms(3) by (metis prod.collapse)
  show ?thesis using POST_valid [OF assms(1,2) gt(1)] gt(2) by (simp add: Let_def)
qed

text \<open>
  C6. When the speech service answers with a non-success status, the handler
  answers 500 "Voice synthesis failed" and logs the service's error text, for
  a text and for an audio input alike.
\<close>

theorem POST_tts_failure:
  assumes "req_form req = Some fd" "safe_parse (json_parse sv) fd = Some d"
    "get_transcript sv (p_input d) = (Some t, tev)"
    "time_str (locale_time sv) (req_headers req) = Inr tm"
    "complete sv (completion_request (location (req_headers req)) tm (p_message d) t) = Inr (r # rs)"
    "synthesize sv (tts_request_of (cartesia_key sv) r) = Inr voice" "\<not> tts_ok voice"
  shows "outcome (POST sv req) = Respond (text_response 500 ''Voice synthesis failed'')
         \<and> LogError (tts_error_text voice) \<in> set (effects (POST sv req))"
  using assms by (simp add: POST_valid_Some reply_stage_ok synth_stage_def Let_def)

text \<open>
  C11. A body that is not form data makes \<open>request.formData()\<close> reject:
  the handler throws a TypeError (a generic server error) instead of answering
  400, and calls no service.
\<close>

theorem POST_not_form_data:
  "req_form req = None \<Longrightarrow> outcome (POST sv req) = Throw TypeError \<and> stage_calls (POST sv req) = []"
  by (simp add: POST_form_none)

text \<open>
  C10. A failure of the chat service, or a completion without choices, escapes
  the handler as an exception (the error thrown, or the TypeError of
  \<open>choices[0]\<close>), after the chat call (and, for an audio input, the
  transcription) and before any speech call.
\<close>

theorem POST_chat_failure:
  assumes "req_form req = Some fd" "safe_parse (json_parse sv) fd = Some d"
    "get_transcript sv (p_input d) = (Some t, tev)"
    "time_str (locale_time sv) (req_headers req) = Inr tm"
    "complete sv (completion_request (location (req_headers req)) tm (p_message d) t) = Inl e
     \<or> complete sv (completion_request (location (req_headers req)) tm (p_message d) t) = Inr [] \<and> e = TypeError"
  shows "outcome (POST sv req) = Throw e
         \<and> stage_calls (POST sv req) = (case p_input d of InText _ \<Rightarrow> [2] | InFile _ \<Rightarrow> [1, 2])"
  using assms get_transcript_Some [OF assms(2,3)]
  by (auto simp: POST_valid_Some reply_stage_def Let_def split: input.split)

text \<open>
  C12. A reply of the chat model with an unpaired surrogate (which
  \<open>JSON.parse\<close> of the service's answer yields for a lone
  high-surrogate escape) is still sent to the speech service, and then makes
  \<open>encodeURIComponent\<close> throw a URIError: the request fails after both paid
  calls were made.
\<close>

theorem POST_unpaired_surrogate:
  assumes "req_form req = Some fd" "safe_parse (json_parse sv) fd = Some d"
    "get_transcript sv (p_input d) = (Some t, tev)"
    "time_str (locale_time sv) (req_headers req) = Inr tm"
    "complete sv (completion_request (location (req_headers req)) tm (p_message d) t) = Inr (Some r # rs)"
    "synthesize sv (tts_request_of (cartesia_key sv) (Some r)) = Inr voice" "tts_ok voice"
    "code_points r = None"
  shows "outcome (POST sv req) = Throw URIError
         \<and> stage_calls (POST sv req) = (case p_input d of InText _ \<Rightarrow> [2, 3] | InFile _ \<Rightarrow> [1, 2, 3])"
proof -
  have r: "encode_uri_component r = Inl URIError"
    using assms(8) encode_uri_component_fails_iff by (metis sum.exhaust)
  have "outcome (respond_stage (req_headers req) t (Some r) voice) = Throw URIError"
  proof (cases "encode_uri_component t")
    case (Inl x)
    then have "x = URIError" using encode_uri_component_fails_iff by blast
    with Inl show ?thesis by (simp add: respond_stage_def Let_def)
  next
    case (Inr xt)
    with r show ?thesis by (simp add: respond_stage_def Let_def js_str_of_def)
  qed
  then show ?thesis
    using assms(1-7) get_transcript_Some [OF assms(2,3)] respond_stage_calls [of "req_headers req" t "Some r" voice]
    by (simp add: POST_valid_Some reply_stage_ok synth_stage_ok split: input.split)
qed

text \<open>
  C13. A completion whose first choice has a \<open>null\<close> content is still
  synthesized (with a null transcript) and answered with status 200, with
  \<open>X-Response\<close> the four characters "null", for a text and an audio input.
\<close>

theorem POST_null_reply:
  assumes "req_form req = Some fd" "safe_parse (json_parse sv) fd = Some d"
    "get_transcript sv (p_input d) = (Some t, tev)"
    "time_str (locale_time sv) (req_headers req) = Inr tm"
    "complete sv (completion_request (location (req_headers req)) tm (p_message d) t) = Inr (None # rs)"
    "synthesize sv (tts_request_of (cartesia_key sv) None) = Inr voice" "tts_ok voice"
    "encode_uri_component t = Inr xt"
  shows "outcome (POST sv req) = Respond \<lparr>status = 200, body = AudioStream (tts_body voice),
           resp_headers = [(js ''X-Transcript'', xt), (js ''X-Response'', js ''null'')]\<rparr>
         \<and> TtsCall (tts_request_of (cartesia_key sv) None) \<in> set (effects (POST sv req))"
proof -
  have n: "encode_uri_component (js ''null'') = Inr (js ''null'')"
    by (simp add: uri_unreserved_def)
  show ?thesis
    using assms n by (simp add: POST_valid_Some reply_stage_ok synth_stage_ok respond_stage_def
        js_str_of_def Let_def)
qed

lemma chat_calls_respond: "ChatCall c \<notin> set (effects (respond_stage hdrs t r v))"
  by (simp add: respond_stage_def Let_def split: sum.split)

lemma chat_calls_synth: "ChatCall c \<notin> set (effects (synth_stage sv hdrs t r))"
  by (simp add: synth_stage_def Let_def chat_calls_respond split: sum.split)

lemma chat_calls_reply:
  "ChatCall c \<in> set (effects (reply_stage sv hdrs h t)) \<Longrightarrow>
     \<exists>tm. c = completion_request (location hdrs) tm h t"
  by (auto simp: reply_stage_def Let_def chat_calls_synth split: sum.splits list.splits)

lemma chat_calls_transcript: "ChatCall c \<notin> set (snd (get_transcript sv i))"
  by (simp add: get_transcript_def Let_def split: input.split sum.split)

lemma chat_calls_POST:
  assumes "ChatCall c \<in> set (effects (POST sv req))"
  shows "\<exists>fd d t tm. req_form req = Some fd \<and> safe_parse (json_parse sv) fd = Some d \<and> t \<noteq> []
           \<and> c = completion_request (location (req_headers req)) tm (p_message d) t"
proof -
  obtain fd where fd: "req_form req = Some fd"
    using assms by (cases "req_form req") (auto simp: POST_form_none)
  obtain d where d: "safe_parse (json_parse sv) fd = Some d"
    using assms fd by (cases "safe_parse (json_parse sv) fd") (auto simp: POST_invalid)
  obtain tr ev1 where gt: "get_transcript sv (p_input d) = (tr, ev1)" by fastforce
  have ev1: "ChatCall c \<notin> set ev1" using chat_calls_transcript [of c sv "p_input d"] gt by simp
  obtain t where t: "tr = Some t" "t \<noteq> []"
      and c: "ChatCall c \<in> set (effects (reply_stage sv (req_headers req) (p_message d) t))"
    using assms POST_valid [OF fd d gt] ev1
    by (cases tr) (auto simp: Let_def split: if_splits)
  show ?thesis using chat_calls_reply [OF c] fd d t by blast
qed

text \<open>
  C4. Every chat request the handler sends starts with the system message built
  from the caller's location and the time, ends with a user message, and has no
  other system message: the caller's history can only hold user and assistant
  turns.
\<close>

theorem POST_prompt_roles:
  assumes "ChatCall c \<in> set (effects (POST sv req))"
  shows "role (hd (chat_messages c)) = System
         \<and> (\<exists>tm. content (hd (chat_messages c)) = system_prompt (location (req_headers req)) tm)
         \<and> (\<forall>m \<in> set (tl (chat_messages c)). role m \<noteq> System)
         \<and> role (last (chat_messages c)) = User"
proof -
  obtain fd d t tm where d: "safe_parse (json_parse sv) fd = Some d"
    and c: "c = completion_request (location (req_headers req)) tm (p_message d) t"
    using chat_calls_POST [OF assms] by blast
  have "\<forall>m \<in> set (p_message d). role m \<noteq> System"
    using safe_parse_roles [OF d] by fastforce
  then show ?thesis by (auto simp: c completion_request_def prompt_messages_def)
qed

lemma respond_stage_headers:
  "outcome (respond_stage hdrs t r v) = Respond rsp \<Longrightarrow>
     \<forall>(k, x) \<in> set (resp_headers rsp). list_all visible_ascii x"
  by (auto simp: respond_stage_def Let_def split: sum.splits dest: encode_uri_component_visible)

lemma synth_stage_headers:
  "outcome (synth_stage sv hdrs t r) = Respond rsp \<Longrightarrow>
     \<forall>(k, x) \<in> set (resp_headers rsp). list_all visible_ascii x"
  by (auto simp: synth_stage_def Let_def text_response_def split: sum.splits if_splits
      dest: respond_stage_headers)

lemma reply_stage_headers:
  "outcome (reply_stage sv hdrs h t) = Respond rsp \<Longrightarrow>
     \<forall>(k, x) \<in> set (resp_headers rsp). list_all visible_ascii x"
  by (auto simp: reply_stage_def Let_def split: sum.splits list.splits dest: synth_stage_headers)

text \<open>
  C7. Every header value of every response the handler produces consists of
  visible ASCII characters only (so it is a valid HTTP header value).
\<close>

theorem POST_headers_visible:
  assumes "outcome (POST sv req) = Respond rsp"
  shows "\<forall>(k, x) \<in> set (resp_headers rsp). list_all visible_ascii x"
proof (cases "req_form req")
  case None
  with assms show ?thesis by (simp add: POST_form_none)
next
  case (Some fd)
  show ?thesis
  proof (cases "safe_parse (json_parse sv) fd")
    case None
    with Some assms show ?thesis by (auto simp: POST_invalid text_response_def)
  next
    case (Some d)
    obtain tr ev1 where gt: "get_transcript sv (p_input d) = (tr, ev1)" by fastforce
    show ?thesis
      using assms POST_valid [OF \<open>req_form req = Some fd\<close> Some gt]
      by (cases tr) (auto simp: Let_def text_response_def split: if_splits dest: reply_stage_headers)
  qed
qed

text \<open>
  C15. In \<open>"stage " + id || "local"\<close> the fallback is dead code: the
  label is always the stage name followed by the request id, and a request
  without \<open>x-vercel-id\<close> gets the label "stage null", never "local".
\<close>

theorem timer_label_fallback_dead:
  "stage \<noteq> [] \<Longrightarrow> timer_label stage hdrs = js stage @ js_str_of (hdrs (js ''x-vercel-id''))
     \<and> (hdrs (js ''x-vercel-id'') = None \<longrightarrow> timer_label stage hdrs = js (stage @ ''null''))"
  by (simp add: timer_label_def js_or_str_def js_str_of_def)

text \<open>
  C14. A text input is passed to the chat service as it is, without trimming: a
  text of white space only reaches the model (unlike a transcription, which is
  trimmed and rejected when blank).
\<close>

theorem POST_text_untrimmed:
  assumes "req_form req = Some fd" "safe_parse (json_parse sv) fd = Some d" "p_input d = InText s"
    "time_str (locale_time sv) (req_headers req) = Inr tm"
  shows "ChatCall (completion_request (location (req_headers req)) tm (p_message d) s)
           \<in> set (effects (POST sv req))"
  using assms by (auto simp: POST_valid_text reply_stage_def Let_def split: sum.split list.split)

lemma tts_calls_respond: "TtsCall c \<notin> set (effects (respond_stage hdrs t r v))"
  by (simp add: respond_stage_def Let_def split: sum.split)

lemma tts_calls_synth:
  "TtsCall c \<in> set (effects (synth_stage sv hdrs t r)) \<Longrightarrow> c = tts_request_of (cartesia_key sv) r"
  by (auto simp: synth_stage_def Let_def tts_calls_respond split: sum.splits if_splits)

text \<open>
  C16. A transcript obtained from audio is the trimmed text of a successful
  transcription: non-empty, without white space at either end, after exactly one
  transcription call.
\<close>

theorem get_transcript_audio:
  "get_transcript sv (InFile f) = (Some t, ev) \<Longrightarrow>
     \<exists>text. transcribe sv f = Inr text \<and> t = js_trim text \<and> t \<noteq> []
       \<and> \<not> js_whitespace (hd t) \<and> \<not> js_whitespace (last t) \<and> ev = [TranscribeCall f]"
  by (auto simp: get_transcript_file js_trim_ends split: sum.splits if_splits)

end
