(* ===== verification/Console.thy ===== *)
theory Console
  imports Handler
begin

text \<open>
  The console timers of \<open>src/app/api/route.ts\<close>. Every stage of \<open>POST\<close> brackets
  its work with \<open>console.time(label)\<close> and \<open>console.timeEnd(label)\<close>. Node's
  \<open>console\<close> keeps one table from labels to start times for the whole process,
  shared by all requests the server handles concurrently: \<open>time\<close> on a label
  that is already running only emits the warning "Label already exists" and
  keeps the old start, \<open>timeEnd\<close> on a label that is not running emits "No such
  label", otherwise it prints the elapsed time and removes the label. The table
  is \<open>console\<close> (Node's \<open>Console\<close> is not code of the repository and is modelled
  from its documentation); a handler run drives it through the \<open>TimeStart\<close>
  and \<open>TimeEnd\<close> effects recorded by \<open>Handler\<close>. Concurrent requests are an
  interleaving of their effect sequences, the step relation \<open>interleave\<close>.
  \<open>timer_trace\<close> is the bracket discipline of one sequence of effects: the
  labels it leaves running, or \<open>None\<close> when it starts a running label or ends
  one that is not running.
\<close>

subsection \<open>Node's console timers\<close>

datatype console_out =
    TimerLine jstr nat
  | LabelExists jstr
  | NoSuchLabel jstr
  | ErrorLine jstr

record console =
  timers :: "jstr \<rightharpoonup> nat"
  now :: nat
  printed :: "console_out list"

definition console_time :: "jstr \<Rightarrow> console \<Rightarrow> console" where
  "console_time l c =
     (if timers c l \<noteq> None then c\<lparr>printed := printed c @ [LabelExists l]\<rparr>
      else c\<lparr>timers := (timers c)(l \<mapsto> now c)\<rparr>)"

definition console_time_end :: "jstr \<Rightarrow> console \<Rightarrow> console" where
  "console_time_end l c =
     (case timers c l of
        None \<Rightarrow> c\<lparr>printed := printed c @ [NoSuchLabel l]\<rparr>
      | Some t \<Rightarrow> c\<lparr>timers := (timers c)(l := None), printed := printed c @ [TimerLine l (now c - t)]\<rparr>)"

text \<open>One effect of a run on the console; awaiting a service takes one tick.\<close>

fun console_event :: "event \<Rightarrow> console \<Rightarrow> console" where
  "console_event (TimeStart l) c = console_time l c"
| "console_event (TimeEnd l) c = console_time_end l c"
| "console_event (LogError s) c = c\<lparr>printed := printed c @ [ErrorLine s]\<rparr>"
| "console_event (TranscribeCall _) c = c\<lparr>now := Suc (now c)\<rparr>"
| "console_event (ChatCall _) c = c\<lparr>now := Suc (now c)\<rparr>"
| "console_event (TtsCall _) c = c\<lparr>now := Suc (now c)\<rparr>"

definition console_run :: "event list \<Rightarrow> console \<Rightarrow> console" where
  "console_run evs c = fold console_event evs c"

fun is_warning :: "console_out \<Rightarrow> bool" where
  "is_warning (LabelExists _) = True"
| "is_warning (NoSuchLabel _) = True"
| "is_warning _ = False"

definition warnings :: "console \<Rightarrow> console_out list" where
  "warnings c = filter is_warning (printed c)"

subsection \<open>Bracket discipline of an effect sequence\<close>

fun ev_label :: "event \<Rightarrow> jstr option" where
  "ev_label (TimeStart l) = Some l"
| "ev_label (TimeEnd l) = Some l"
| "ev_label _ = None"

definition ev_labels :: "event list \<Rightarrow> jstr set" where
  "ev_labels evs = set (List.map_filter ev_label evs)"

fun timer_trace :: "jstr list \<Rightarrow> event list \<Rightarrow> jstr list option" where
  "timer_trace opn [] = Some opn"
| "timer_trace opn (TimeStart l # es) = (if l \<in> set opn then None else timer_trace (l # opn) es)"
| "timer_trace opn (TimeEnd l # es) = (if l \<in> set opn then timer_trace (remove1 l opn) es else None)"
| "timer_trace opn (_ # es) = timer_trace opn es"

text \<open>The effects of a run, the deferred \<open>after()\<close> callbacks last.\<close>

definition run_events :: "run \<Rightarrow> event list" where
  "run_events r = effects r @ deferred r"

subsection \<open>Concurrent requests\<close>

text \<open>
  A state is the effects each in-flight request has still to perform and the
  shared console; a step performs the next effect of one request.
\<close>

inductive interleave :: "event list list \<times> console \<Rightarrow> event list list \<times> console \<Rightarrow> bool" where
  step: "i < length qs \<Longrightarrow> qs ! i = e # es \<Longrightarrow> interleave (qs, c) (qs[i := es], console_event e c)"

inductive_cases interleaveE: "interleave (qs, c) s"

text \<open>
  The invariant of concurrent runs: each request \<open>i\<close> still in flight has a
  set of running labels \<open>opn\<close> from which its remaining effects keep the
  bracket discipline, and the shared table runs exactly those of its own
  labels (\<open>qs0\<close> are the requests' complete effect sequences).
\<close>

definition timers_inv :: "event list list \<Rightarrow> event list list \<Rightarrow> console \<Rightarrow> bool" where
  "timers_inv qs0 qs c \<longleftrightarrow> length qs = length qs0 \<and>
     (\<forall>i < length qs. \<exists>opn. timer_trace opn (qs ! i) \<noteq> None \<and> distinct opn
        \<and> set opn \<subseteq> ev_labels (qs0 ! i) \<and> ev_labels (qs ! i) \<subseteq> ev_labels (qs0 ! i)
        \<and> (\<forall>l \<in> ev_labels (qs0 ! i). timers c l \<noteq> None \<longleftrightarrow> l \<in> set opn))"

definition labels_disjoint :: "event list list \<Rightarrow> bool" where
  "labels_disjoint qs \<longleftrightarrow>
     (\<forall>i < length qs. \<forall>j < length qs. i \<noteq> j \<longrightarrow> ev_labels (qs ! i) \<inter> ev_labels (qs ! j) = {})"

subsection \<open>Lemmas on the console\<close>

lemma console_event_timers:
  "timers (console_event e c) =
     (case e of
        TimeStart l \<Rightarrow> if timers c l \<noteq> None then timers c else (timers c)(l \<mapsto> now c)
      | TimeEnd l \<Rightarrow> (timers c)(l := None)
      | _ \<Rightarrow> timers c)"
  by (cases e) (auto simp: console_time_def console_time_end_def split: option.split)

lemma console_event_warnings:
  "warnings (console_event e c) =
     warnings c @ (case e of
        TimeStart l \<Rightarrow> if timers c l \<noteq> None then [LabelExists l] else []
      | TimeEnd l \<Rightarrow> if timers c l = None then [NoSuchLabel l] else []
      | _ \<Rightarrow> [])"
  by (cases e) (simp_all add: warnings_def console_time_def console_time_end_def split: option.split)

lemma console_event_frame:
  "ev_label e \<noteq> Some l \<Longrightarrow> timers (console_event e c) l = timers c l"
  using console_event_timers [of e c] by (cases e) auto

lemma ev_labels_Cons:
  "ev_labels (e # es) = (case ev_label e of None \<Rightarrow> ev_labels es | Some l \<Rightarrow> insert l (ev_labels es))"
  by (simp add: ev_labels_def split: option.split)

lemma ev_labels_append [simp]: "ev_labels (xs @ ys) = ev_labels xs \<union> ev_labels ys"
  by (simp add: ev_labels_def)

lemma timer_trace_append:
  "timer_trace opn (xs @ ys) = Option.bind (timer_trace opn xs) (\<lambda>p. timer_trace p ys)"
  by (induction opn xs rule: timer_trace.induct) simp_all

lemma trace_step:
  assumes tr: "timer_trace opn (e # es) \<noteq> None" and d: "distinct opn"
    and inv: "\<forall>l \<in> L. timers c l \<noteq> None \<longleftrightarrow> l \<in> set opn"
    and sub: "set opn \<subseteq> L" "ev_labels (e # es) \<subseteq> L"
  shows "\<exists>opn'. timer_trace opn' es = timer_trace opn (e # es) \<and> distinct opn' \<and> set opn' \<subseteq> L
           \<and> ev_labels es \<subseteq> L
           \<and> (\<forall>l \<in> L. timers (console_event e c) l \<noteq> None \<longleftrightarrow> l \<in> set opn')
           \<and> warnings (console_event e c) = warnings c"
proof (cases e)
  case (TimeStart l)
  then have "l \<notin> set opn" "l \<in> L" using tr sub by (auto simp: ev_labels_Cons split: if_splits)
  then show ?thesis using TimeStart tr d inv sub
    by (intro exI [of _ "l # opn"]) (auto simp: console_event_timers console_event_warnings ev_labels_Cons simp del: console_event.simps)
next
  case (TimeEnd l)
  then have l: "l \<in> set opn" "l \<in> L" using tr sub by (auto simp: ev_labels_Cons split: if_splits)
  then show ?thesis using TimeEnd tr d inv sub
    by (intro exI [of _ "remove1 l opn"])
       (auto simp: console_event_timers console_event_warnings ev_labels_Cons simp del: console_event.simps dest: in_set_remove1 [THEN iffD1, rotated])
qed (use tr d inv sub in \<open>auto simp: console_event_timers console_event_warnings ev_labels_Cons simp del: console_event.simps\<close>)

lemma ev_label_mem: "ev_label e = Some l \<Longrightarrow> l \<in> ev_labels (e # es)"
  by (simp add: ev_labels_Cons)

lemma interleave_inv:
  assumes st: "interleave (qs, c) (qs', c')" and inv: "timers_inv qs0 qs c"
    and dj: "labels_disjoint qs0"
  shows "timers_inv qs0 qs' c' \<and> warnings c' = warnings c"
proof -
  obtain i e es where i: "i < length qs" "qs ! i = e # es" and q': "qs' = qs[i := es]"
      and c': "c' = console_event e c"
    using st by (auto elim: interleave.cases)
  obtain opn where "timer_trace opn (qs ! i) \<noteq> None" "distinct opn" "set opn \<subseteq> ev_labels (qs0 ! i)"
      "ev_labels (qs ! i) \<subseteq> ev_labels (qs0 ! i)"
      "\<forall>l \<in> ev_labels (qs0 ! i). timers c l \<noteq> None \<longleftrightarrow> l \<in> set opn"
    using inv i(1) unfolding timers_inv_def by blast
  then obtain opn' where o': "timer_trace opn' es = timer_trace opn (qs ! i)" "distinct opn'" "set opn' \<subseteq> ev_labels (qs0 ! i)"
      "ev_labels es \<subseteq> ev_labels (qs0 ! i)"
      "\<forall>l \<in> ev_labels (qs0 ! i). timers c' l \<noteq> None \<longleftrightarrow> l \<in> set opn'" "warnings c' = warnings c"
    using trace_step [of opn e es "ev_labels (qs0 ! i)" c] i(2) c' by auto
  have len: "length qs = length qs0" using inv by (simp add: timers_inv_def)
  have frame: "timers c' l = timers c l" if "j < length qs" "j \<noteq> i" "l \<in> ev_labels (qs0 ! j)" for j l
  proof (rule ccontr)
    assume "timers c' l \<noteq> timers c l"
    then have "ev_label e = Some l" using console_event_frame [of e l c] c' by auto
    then have "l \<in> ev_labels (qs0 ! i)"
      using ev_label_mem [of e l es] i(2) \<open>ev_labels (qs ! i) \<subseteq> ev_labels (qs0 ! i)\<close> by auto
    then show False using dj that i(1) len by (auto simp: labels_disjoint_def)
  qed
  have "timers_inv qs0 qs' c'"
    unfolding timers_inv_def
  proof (intro conjI allI impI)
    show "length qs' = length qs0" using q' len by simp
  next
    fix j assume j: "j < length qs'"
    show "\<exists>opn. timer_trace opn (qs' ! j) \<noteq> None \<and> distinct opn \<and> set opn \<subseteq> ev_labels (qs0 ! j)
        \<and> ev_labels (qs' ! j) \<subseteq> ev_labels (qs0 ! j)
        \<and> (\<forall>l \<in> ev_labels (qs0 ! j). timers c' l \<noteq> None \<longleftrightarrow> l \<in> set opn)"
    proof (cases "j = i")
      case True
      then show ?thesis using o' q' i \<open>timer_trace opn (qs ! i) \<noteq> None\<close>
        by (intro exI [of _ opn']) auto
    next
      case False
      then show ?thesis using inv j q' frame unfolding timers_inv_def by auto
    qed
  qed
  then show ?thesis using o'(6) by simp
qed

lemma interleave_star_inv:
  assumes "interleave\<^sup>*\<^sup>* (qs0, c0) (qs, c)" "timers_inv qs0 qs0 c0" "labels_disjoint qs0"
  shows "timers_inv qs0 qs c \<and> warnings c = warnings c0"
  using assms by (induction rule: rtranclp_induct2) (auto dest: interleave_inv)

lemma timers_inv_init:
  assumes "\<forall>i < length qs0. timer_trace [] (qs0 ! i) \<noteq> None \<and> (\<forall>l \<in> ev_labels (qs0 ! i). timers c0 l = None)"
  shows "timers_inv qs0 qs0 c0"
  unfolding timers_inv_def
proof (intro conjI allI impI)
  fix i assume "i < length qs0"
  with assms show "\<exists>opn. timer_trace opn (qs0 ! i) \<noteq> None \<and> distinct opn \<and> set opn \<subseteq> ev_labels (qs0 ! i)
      \<and> ev_labels (qs0 ! i) \<subseteq> ev_labels (qs0 ! i)
      \<and> (\<forall>l \<in> ev_labels (qs0 ! i). timers c0 l \<noteq> None \<longleftrightarrow> l \<in> set opn)"
    by (intro exI [of _ "[]"]) simp
qed simp

lemma console_run_Cons [simp]: "console_run (e # es) c = console_run es (console_event e c)"
  by (simp add: console_run_def)

lemma console_run_Nil [simp]: "console_run [] c = c"
  by (simp add: console_run_def)

lemma console_run_trace:
  assumes "timer_trace opn evs = Some opn'" "distinct opn" "set opn \<subseteq> L" "ev_labels evs \<subseteq> L"
    "\<forall>l \<in> L. timers c l \<noteq> None \<longleftrightarrow> l \<in> set opn"
  shows "warnings (console_run evs c) = warnings c
         \<and> (\<forall>l \<in> L. timers (console_run evs c) l \<noteq> None \<longleftrightarrow> l \<in> set opn')
         \<and> (\<forall>l. l \<notin> L \<longrightarrow> timers (console_run evs c) l = timers c l)"
  using assms
proof (induction evs arbitrary: opn c)
  case Nil
  then show ?case by simp
next
  case (Cons e es)
  obtain opn1 where o1: "timer_trace opn1 es = Some opn'" "distinct opn1" "set opn1 \<subseteq> L"
      "ev_labels es \<subseteq> L" "\<forall>l \<in> L. timers (console_event e c) l \<noteq> None \<longleftrightarrow> l \<in> set opn1"
      "warnings (console_event e c) = warnings c"
    using trace_step [of opn e es L c] Cons.prems by auto
  have "\<forall>l. l \<notin> L \<longrightarrow> timers (console_event e c) l = timers c l"
    using Cons.prems(4) console_event_frame [of e _ c] ev_label_mem [of e _ es] by fastforce
  then show ?case using Cons.IH [OF o1(1-4) o1(5)] o1(6) by simp
qed

subsection \<open>The labels of a run\<close>

lemma timer_label_eq: "stage \<noteq> [] \<Longrightarrow> timer_label stage hdrs = js stage @ js_str_of (hdrs (js ''x-vercel-id''))"
  by (simp add: timer_label_def js_or_str_def)

lemma stage_labels_distinct:
  "distinct [timer_label ''transcribe '' h, timer_label ''text completion '' h,
             timer_label ''cartesia request '' h, timer_label ''stream '' h]"
  by (simp add: timer_label_eq)

lemma stage_prefix_inject:
  assumes "s \<in> {''transcribe '', ''text completion '', ''cartesia request '', ''stream ''}"
    "s' \<in> {''transcribe '', ''text completion '', ''cartesia request '', ''stream ''}"
    "js s @ a = js s' @ b"
  shows "s = s' \<and> a = b"
proof -
  have l: "2 \<le> length s" "2 \<le> length s'" using assms(1,2) by auto
  have "take 2 (js s @ a) = take 2 (js s' @ b)" using assms(3) by simp
  then have "js (take 2 s) = js (take 2 s')" using l by (simp add: js_def take_map)
  then have "take 2 s = take 2 s'" by simp
  with assms(1,2) have "s = s'" by auto
  with assms(3) show ?thesis by simp
qed

subsection \<open>Timer brackets of the handler stages\<close>

lemma run_events_prefix [simp]: "run_events (prefix_effects ev r) = ev @ run_events r"
  by (simp add: run_events_def prefix_effects_def)

lemma run_events_run [simp]: "run_events \<lparr>outcome = x, effects = ev, deferred = d\<rparr> = ev @ d"
  by (simp add: run_events_def)

lemma respond_trace:
  "timer_label ''stream '' h \<notin> set opn \<Longrightarrow> timer_trace opn (run_events (respond_stage h t r v)) = Some opn"
  by (simp add: respond_stage_def run_events_def Let_def split: sum.split)

lemma respond_status: "outcome (respond_stage h t r v) = Respond rsp \<Longrightarrow> status rsp = 200"
  by (auto simp: respond_stage_def Let_def split: sum.splits)

lemma synth_trace:
  assumes "timer_label ''cartesia request '' h \<notin> set opn" "timer_label ''stream '' h \<notin> set opn"
  shows "timer_trace opn (run_events (synth_stage sv h t r)) =
           (case synthesize sv (tts_request_of (cartesia_key sv) r) of
              Inl _ \<Rightarrow> Some (timer_label ''cartesia request '' h # opn)
            | Inr _ \<Rightarrow> Some opn)"
proof -
  have "timer_label ''stream '' h \<noteq> timer_label ''cartesia request '' h"
    using stage_labels_distinct [of h] by auto
  then show ?thesis using assms
    by (auto simp: synth_stage_def Let_def timer_trace_append respond_trace
        split: sum.split)
qed

lemma synth_status:
  "outcome (synth_stage sv h t r) = Respond rsp \<Longrightarrow>
     (\<exists>v. synthesize sv (tts_request_of (cartesia_key sv) r) = Inr v) \<and> (status rsp = 200 \<or> status rsp = 500)"
  by (auto simp: synth_stage_def Let_def text_response_def split: sum.splits if_splits dest: respond_status)

lemma reply_trace:
  "\<exists>k. timer_trace [timer_label ''transcribe '' h] (run_events (reply_stage sv h hist t)) = Some k
     \<and> k \<in> {[], [timer_label ''text completion '' h], [timer_label ''cartesia request '' h]}
     \<and> (\<forall>rsp. outcome (reply_stage sv h hist t) = Respond rsp \<longrightarrow> k = [] \<and> (status rsp = 200 \<or> status rsp = 500))"
proof (cases "time_str (locale_time sv) h")
  case (Inl e)
  then show ?thesis by (simp add: reply_stage_def run_events_def)
next
  case (Inr tm)
  show ?thesis
  proof (cases "complete sv (completion_request (location h) tm hist t)" rule: sum.exhaust)
    case (Inl e)
    with Inr show ?thesis by (simp add: reply_stage_def run_events_def Let_def)
  next
    case (Inr rs)
    show ?thesis
    proof (cases rs)
      case Nil
      with Inr \<open>time_str (locale_time sv) h = Inr tm\<close> show ?thesis
        by (simp add: reply_stage_def run_events_def Let_def)
    next
      case (Cons r rs')
      have d: "timer_label ''transcribe '' h \<noteq> timer_label ''text completion '' h"
        using stage_labels_distinct [of h] by auto
      have "reply_stage sv h hist t =
          prefix_effects [TimeEnd (timer_label ''transcribe '' h), TimeStart (timer_label ''text completion '' h),
                          ChatCall (completion_request (location h) tm hist t),
                          TimeEnd (timer_label ''text completion '' h)] (synth_stage sv h t r)"
        using Cons Inr \<open>time_str (locale_time sv) h = Inr tm\<close> by (simp add: reply_stage_def Let_def)
      then show ?thesis using d synth_trace [of h "[]" sv t r] synth_status [of sv h t r]
        by (auto simp: timer_trace_append split: sum.split)
    qed
  qed
qed

lemma transcript_trace: "timer_trace opn (snd (get_transcript sv i) @ ys) = timer_trace opn ys"
  by (simp add: get_transcript_def Let_def split: input.split sum.split)

lemma POST_cases:
  obtains (no_form) "POST sv req = \<lparr>outcome = Throw TypeError,
      effects = [TimeStart (timer_label ''transcribe '' (req_headers req))], deferred = []\<rparr>"
  | (rejected) msg ev1 where "POST sv req = \<lparr>outcome = Respond (text_response 400 msg),
      effects = TimeStart (timer_label ''transcribe '' (req_headers req)) # ev1, deferred = []\<rparr>"
      "ev1 = [] \<or> (\<exists>i. ev1 = snd (get_transcript sv i))"
  | (reply) i h t where "POST sv req = prefix_effects
      (TimeStart (timer_label ''transcribe '' (req_headers req)) # snd (get_transcript sv i))
      (reply_stage sv (req_headers req) h t)"
proof (cases "req_form req")
  case None
  then show ?thesis using no_form by (simp add: POST_form_none)
next
  case (Some fd)
  show ?thesis
  proof (cases "safe_parse (json_parse sv) fd")
    case None
    with Some show ?thesis using rejected [of "''Invalid request''" "[]"] by (simp add: POST_invalid)
  next
    case (Some d)
    obtain tr ev1 where gt: "get_transcript sv (p_input d) = (tr, ev1)" by fastforce
    show ?thesis
    proof (cases "tr = None \<or> tr = Some []")
      case True
      then show ?thesis using POST_valid [OF \<open>req_form req = Some fd\<close> Some gt] gt
          rejected [of "''Invalid audio''" ev1]
        by (auto simp: Let_def) (metis snd_conv)+
    next
      case False
      then obtain t where t: "tr = Some t" "t \<noteq> []" by auto
      then show ?thesis using POST_valid [OF \<open>req_form req = Some fd\<close> Some gt] gt
          reply [of "p_input d" "p_message d" t]
        by (simp add: Let_def)
    qed
  qed
qed

lemma POST_trace:
  "\<exists>k. timer_trace [] (run_events (POST sv req)) = Some k
     \<and> k \<in> {[], [timer_label ''transcribe '' (req_headers req)], [timer_label ''text completion '' (req_headers req)],
            [timer_label ''cartesia request '' (req_headers req)]}
     \<and> (\<forall>rsp. outcome (POST sv req) = Respond rsp \<longrightarrow>
           status rsp = 400 \<and> k = [timer_label ''transcribe '' (req_headers req)]
         \<or> (status rsp = 200 \<or> status rsp = 500) \<and> k = [])"
proof (cases rule: POST_cases [of sv req])
  case (rejected msg ev1)
  then show ?thesis using transcript_trace [of "[_]" sv _ "[]"] by (auto simp: text_response_def)
next
  case (reply i h t)
  then show ?thesis using reply_trace [of "req_headers req" sv h t]
    by (simp add: timer_trace_append transcript_trace [of _ sv i "run_events _", simplified timer_trace_append]) blast
qed simp

lemma ev_labels_run_literal:
  "ev_labels [] = {}" "ev_labels (TimeStart l # es) = insert l (ev_labels es)"
  "ev_labels (TimeEnd l # es) = insert l (ev_labels es)"
  "ev_labels (TranscribeCall f # es) = ev_labels es" "ev_labels (ChatCall q # es) = ev_labels es"
  "ev_labels (TtsCall u # es) = ev_labels es" "ev_labels (LogError m # es) = ev_labels es"
  by (simp_all add: ev_labels_def)

lemmas ev_labels_simps = ev_labels_run_literal ev_labels_append

lemma transcript_labels: "ev_labels (snd (get_transcript sv i)) = {}"
  by (simp add: get_transcript_def Let_def ev_labels_simps split: input.split sum.split)

lemma respond_labels: "ev_labels (run_events (respond_stage h t r v)) = {timer_label ''stream '' h}"
  by (simp add: respond_stage_def Let_def ev_labels_simps split: sum.split)

lemma synth_labels:
  "ev_labels (run_events (synth_stage sv h t r)) \<subseteq> {timer_label ''cartesia request '' h, timer_label ''stream '' h}"
  by (auto simp: synth_stage_def Let_def ev_labels_simps respond_labels split: sum.split)

lemma reply_labels:
  "ev_labels (run_events (reply_stage sv h hist t)) \<subseteq>
     {timer_label ''transcribe '' h, timer_label ''text completion '' h,
      timer_label ''cartesia request '' h, timer_label ''stream '' h}"
  using synth_labels [of sv h t]
  by (auto simp: reply_stage_def Let_def ev_labels_simps split: sum.split list.split)

lemma POST_labels:
  "ev_labels (run_events (POST sv req)) \<subseteq>
     (\<lambda>s. timer_label s (req_headers req)) ` {''transcribe '', ''text completion '', ''cartesia request '', ''stream ''}"
proof (cases rule: POST_cases [of sv req])
  case (rejected msg ev1)
  then show ?thesis using transcript_labels [of sv] by (auto simp: ev_labels_simps)
next
  case (reply i h t)
  then show ?thesis using reply_labels [of sv "req_headers req" h t] transcript_labels [of sv i]
    by (auto simp: ev_labels_simps)
qed (simp add: ev_labels_simps)

lemma POST_first: "\<exists>es. run_events (POST sv req) = TimeStart (timer_label ''transcribe '' (req_headers req)) # es"
  by (cases rule: POST_cases [of sv req]) simp_all

lemma POST_label_stage:
  assumes "l1 \<in> ev_labels (run_events (POST sv1 req1))" 
  shows "\<exists>s \<in> {''transcribe '', ''text completion '', ''cartesia request '', ''stream ''}. l1 = timer_label s (req_headers req1)"
  using POST_labels [of sv1 req1] assms by (auto simp del: insert_iff)

lemma stage_label_id:
  assumes s: "s \<in> {''transcribe '', ''text completion '', ''cartesia request '', ''stream ''}"
    and s': "s' \<in> {''transcribe '', ''text completion '', ''cartesia request '', ''stream ''}"
    and eq: "timer_label s h1 = timer_label s' h2"
  shows "js_str_of (h1 (js ''x-vercel-id'')) = js_str_of (h2 (js ''x-vercel-id''))"
proof -
  have a: "s \<noteq> []" "s' \<noteq> []" using s s' by auto
  have "js s @ js_str_of (h1 (js ''x-vercel-id'')) = js s' @ js_str_of (h2 (js ''x-vercel-id''))"
    using eq by (simp only: timer_label_eq [OF a(1)] timer_label_eq [OF a(2)])
  then show ?thesis by (rule stage_prefix_inject [OF s s', THEN conjunct2])
qed

lemma POST_labels_disjoint:
  assumes "distinct (map (\<lambda>(sv, req). js_str_of (req_headers req (js ''x-vercel-id''))) rs)"
  shows "labels_disjoint (map (\<lambda>(sv, req). run_events (POST sv req)) rs)"
  unfolding labels_disjoint_def
proof (intro allI impI)
  fix i j assume ij: "i < length (map (\<lambda>(sv, req). run_events (POST sv req)) rs)"
    "j < length (map (\<lambda>(sv, req). run_events (POST sv req)) rs)" "i \<noteq> j"
  obtain sv1 req1 sv2 req2 where r: "rs ! i = (sv1, req1)" "rs ! j = (sv2, req2)" by fastforce
  let ?ids = "map (\<lambda>(sv, req). js_str_of (req_headers req (js ''x-vercel-id''))) rs"
  have "?ids ! i \<noteq> ?ids ! j" using nth_eq_iff_index_eq [OF assms, of i j] ij by simp
  then have ne: "js_str_of (req_headers req1 (js ''x-vercel-id'')) \<noteq> js_str_of (req_headers req2 (js ''x-vercel-id''))"
    using ij r by simp
  have "ev_labels (run_events (POST sv1 req1)) \<inter> ev_labels (run_events (POST sv2 req2)) = {}"
  proof (rule equals0I)
    fix l assume "l \<in> ev_labels (run_events (POST sv1 req1)) \<inter> ev_labels (run_events (POST sv2 req2))"
    then have l: "l \<in> ev_labels (run_events (POST sv1 req1))" "l \<in> ev_labels (run_events (POST sv2 req2))"
      by simp_all
    from POST_label_stage [OF l(1)] obtain s
      where s: "s \<in> {''transcribe '', ''text completion '', ''cartesia request '', ''stream ''}"
        and e1: "l = timer_label s (req_headers req1)" by (rule bexE)
    from POST_label_stage [OF l(2)] obtain s'
      where s': "s' \<in> {''transcribe '', ''text completion '', ''cartesia request '', ''stream ''}"
        and e2: "l = timer_label s' (req_headers req2)" by (rule bexE)
    have "timer_label s (req_headers req1) = timer_label s' (req_headers req2)" using e1 e2 by (rule subst)
    then have "js_str_of (req_headers req1 (js ''x-vercel-id'')) = js_str_of (req_headers req2 (js ''x-vercel-id''))"
      by (rule stage_label_id [OF s s'])
    with ne show False by contradiction
  qed
  then show "ev_labels (map (\<lambda>(sv, req). run_events (POST sv req)) rs ! i)
      \<inter> ev_labels (map (\<lambda>(sv, req). run_events (POST sv req)) rs ! j) = {}"
    using ij r by simp
qed
lemma console_time_running [simp]: "timers (console_time l c) l \<noteq> None"
  by (simp add: console_time_def)

lemma console_time_warns: "timers c l \<noteq> None \<Longrightarrow> LabelExists l \<in> set (warnings (console_time l c))"
  by (simp add: console_time_def warnings_def)

subsection \<open>The console across requests\<close>

lemma warnings_mono: "set (warnings c) \<subseteq> set (warnings (console_run evs c))"
proof (induction evs arbitrary: c)
  case (Cons e es)
  have "set (warnings c) \<subseteq> set (warnings (console_event e c))" by (simp add: console_event_warnings)
  then show ?case using Cons.IH [of "console_event e c"] by simp
qed simp

lemma timers_run_frame: "l \<notin> ev_labels evs \<Longrightarrow> timers (console_run evs c) l = timers c l"
proof (induction evs arbitrary: c)
  case (Cons e es)
  have "ev_label e \<noteq> Some l" "l \<notin> ev_labels es"
    using Cons.prems ev_label_mem [of e l es] by (auto simp: ev_labels_Cons split: option.splits)
  then show ?case using Cons.IH [of "console_event e c"] console_event_frame [of e l c] by simp
qed simp

lemma POST_rejected:
  assumes "outcome (POST sv req) = Respond rsp" "status rsp = 400"
  shows "\<exists>ev1. run_events (POST sv req) = TimeStart (timer_label ''transcribe '' (req_headers req)) # ev1
           \<and> ev_labels ev1 = {}"
proof (cases rule: POST_cases [of sv req])
  case no_form
  with assms show ?thesis by simp
next
  case (rejected msg ev1)
  then show ?thesis using transcript_labels [of sv] by (auto simp: ev_labels_simps)
next
  case (reply i h t)
  then show ?thesis using assms reply_trace [of "req_headers req" sv h t] by auto
qed


text \<open>
  C19. A run answered with status 200 or 500 leaves Node's timer table as it
  found it and adds no console warning, when none of its labels was running.
\<close>

theorem POST_console_balanced:
  assumes "outcome (POST sv req) = Respond rsp" "status rsp \<noteq> 400"
    "\<forall>l \<in> ev_labels (run_events (POST sv req)). timers c l = None"
  shows "warnings (console_run (run_events (POST sv req)) c) = warnings c
         \<and> timers (console_run (run_events (POST sv req)) c) = timers c"
proof -
  let ?evs = "run_events (POST sv req)"
  have "timer_trace [] ?evs = Some []" using POST_trace [of sv req] assms(1,2) by auto
  from console_run_trace [OF this, of "ev_labels ?evs" c] assms(3)
  have r: "warnings (console_run ?evs c) = warnings c"
      "\<forall>l \<in> ev_labels ?evs. timers (console_run ?evs c) l = None"
      "\<forall>l. l \<notin> ev_labels ?evs \<longrightarrow> timers (console_run ?evs c) l = timers c l"
    by auto
  have "timers (console_run ?evs c) l = timers c l" for l
    using r(2,3) assms(3) by (cases "l \<in> ev_labels ?evs") auto
  with r(1) show ?thesis by auto
qed

text \<open>
  C20. A request answered 400 ("Invalid request" or "Invalid audio") never ends
  its "transcribe" timer: the next request with the same \<open>x-vercel-id\<close> value
  (every request, where the header is missing) makes the console warn that the
  label already exists.
\<close>

theorem POST_timer_leak:
  assumes "outcome (POST sv1 req1) = Respond rsp" "status rsp = 400"
    "js_str_of (req_headers req2 (js ''x-vercel-id'')) = js_str_of (req_headers req1 (js ''x-vercel-id''))"
  shows "LabelExists (timer_label ''transcribe '' (req_headers req1))
           \<in> set (warnings (console_run (run_events (POST sv2 req2)) (console_run (run_events (POST sv1 req1)) c)))"
proof -
  let ?l = "timer_label ''transcribe '' (req_headers req1)"
  obtain ev1 where e1: "run_events (POST sv1 req1) = TimeStart ?l # ev1" "ev_labels ev1 = {}"
    using POST_rejected [OF assms(1,2)] by blast
  have "timers (console_event (TimeStart ?l) c) ?l \<noteq> None" by simp
  then have running: "timers (console_run (run_events (POST sv1 req1)) c) ?l \<noteq> None"
    using e1 timers_run_frame [of ?l ev1] by simp
  have l2: "timer_label ''transcribe '' (req_headers req2) = ?l" using assms(3) by (simp add: timer_label_eq)
  obtain es where e2: "run_events (POST sv2 req2) = TimeStart ?l # es"
    using POST_first [of sv2 req2] l2 by auto
  let ?c1 = "console_run (run_events (POST sv1 req1)) c"
  have "LabelExists ?l \<in> set (warnings (console_event (TimeStart ?l) ?c1))"
    using console_time_warns [OF running] by simp
  then show ?thesis using e2 warnings_mono [of "console_event (TimeStart ?l) ?c1" es] by auto
qed

text \<open>
  C21. Requests served concurrently whose \<open>x-vercel-id\<close> values differ never
  make the console warn, however their effects interleave, when none of their
  labels was running at the start.
\<close>

theorem POST_concurrent_distinct_ids:
  assumes "interleave\<^sup>*\<^sup>* (map (\<lambda>(sv, req). run_events (POST sv req)) rs, c0) (qs, c)"
    "distinct (map (\<lambda>(sv, req). js_str_of (req_headers req (js ''x-vercel-id''))) rs)"
    "\<forall>(sv, req) \<in> set rs. \<forall>l \<in> ev_labels (run_events (POST sv req)). timers c0 l = None"
  shows "warnings c = warnings c0"
proof -
  let ?qs0 = "map (\<lambda>(sv, req). run_events (POST sv req)) rs"
  have "timer_trace [] (?qs0 ! i) \<noteq> None \<and> (\<forall>l \<in> ev_labels (?qs0 ! i). timers c0 l = None)"
    if "i < length ?qs0" for i
  proof -
    obtain sv req where r: "rs ! i = (sv, req)" by fastforce
    have "(sv, req) \<in> set rs" using that r nth_mem [of i rs] by auto
    then show ?thesis using r that assms(3) POST_trace [of sv req] by auto
  qed
  then have "timers_inv ?qs0 ?qs0 c0" by (intro timers_inv_init) blast
  then show ?thesis
    using interleave_star_inv [OF assms(1)] POST_labels_disjoint [OF assms(2)] by blast
qed

text \<open>
  C22. Two concurrent requests with the same \<open>x-vercel-id\<close> value (on a
  local server: any two requests, as the header is missing) can make the
  console warn that the "transcribe" label already exists.
\<close>

theorem POST_concurrent_same_id:
  assumes "js_str_of (req_headers req2 (js ''x-vercel-id'')) = js_str_of (req_headers req1 (js ''x-vercel-id''))"
    "timers c0 (timer_label ''transcribe '' (req_headers req1)) = None"
  shows "\<exists>qs c. interleave\<^sup>*\<^sup>* ([run_events (POST sv1 req1), run_events (POST sv2 req2)], c0) (qs, c)
           \<and> LabelExists (timer_label ''transcribe '' (req_headers req1)) \<in> set (warnings c)"
proof -
  let ?l = "timer_label ''transcribe '' (req_headers req1)"
  have l2: "timer_label ''transcribe '' (req_headers req2) = ?l" using assms(1) by (simp add: timer_label_eq)
  obtain es1 es2 where e: "run_events (POST sv1 req1) = TimeStart ?l # es1"
      "run_events (POST sv2 req2) = TimeStart ?l # es2"
    using POST_first [of sv1 req1] POST_first [of sv2 req2] l2 by auto
  let ?c1 = "console_event (TimeStart ?l) c0"
  let ?c2 = "console_event (TimeStart ?l) ?c1"
  have s1: "interleave ([TimeStart ?l # es1, TimeStart ?l # es2], c0) ([es1, TimeStart ?l # es2], ?c1)"
    using interleave.step [of 0 "[TimeStart ?l # es1, TimeStart ?l # es2]" "TimeStart ?l" es1 c0] by simp
  have s2: "interleave ([es1, TimeStart ?l # es2], ?c1) ([es1, es2], ?c2)"
    using interleave.step [of 1 "[es1, TimeStart ?l # es2]" "TimeStart ?l" es2 ?c1] by simp
  have "timers ?c1 ?l \<noteq> None" by simp
  then have "LabelExists ?l \<in> set (warnings ?c2)" using console_time_warns [of ?c1 ?l] by simp
  moreover have "interleave\<^sup>*\<^sup>* ([run_events (POST sv1 req1), run_events (POST sv2 req2)], c0) ([es1, es2], ?c2)"
    using s1 s2 e by simp
  ultimately show ?thesis by blast
qed

end
