(* ===== verification/Pipeline.thy ===== *)
theory Pipeline
  imports Console
begin

text \<open>
  Properties of \<open>POST\<close> (\<open>src/app/api/route.ts\<close>) that follow a request through
  several stages: the clock of \<open>time()\<close> failing between the transcription and
  the chat call, the length of the percent-encoded response headers, and the
  transcript of an audio input as the specification of \<open>String.prototype.trim\<close>
  describes it.
\<close>

subsection \<open>Lemmas\<close>

lemma reply_stage_200:
  assumes "outcome (reply_stage sv h hist t) = Respond rsp" "status rsp = 200"
  shows "\<exists>r v. outcome (reply_stage sv h hist t) = outcome (respond_stage h t r v)"
  using assms
  by (auto simp: reply_stage_def synth_stage_def Let_def text_response_def split: sum.splits list.splits if_splits)
     metis

lemma respond_stage_Respond:
  "outcome (respond_stage h t r v) = Respond rsp \<Longrightarrow>
     \<exists>xt xr. encode_uri_component t = Inr xt \<and> encode_uri_component (js_str_of r) = Inr xr
       \<and> resp_headers rsp = [(js ''X-Transcript'', xt), (js ''X-Response'', xr)]"
  by (auto simp: respond_stage_def Let_def split: sum.splits)

text \<open>
  C23. When \<open>time()\<close> throws (\<open>toLocaleString\<close> raises a RangeError for a
  time zone it does not know, and the zone is the request's
  \<open>x-vercel-ip-timezone\<close> header), the error escapes the handler after the
  transcription of an audio input has been paid for and before the chat call,
  and the "text completion" timer is left running.
\<close>

theorem POST_clock_failure:
  assumes "req_form req = Some fd" "safe_parse (json_parse sv) fd = Some d"
    "get_transcript sv (p_input d) = (Some t, tev)"
    "locale_time sv (time_zone (req_headers req)) = Inl e"
  shows "outcome (POST sv req) = Throw e
         \<and> stage_calls (POST sv req) = (case p_input d of InText _ \<Rightarrow> [] | InFile _ \<Rightarrow> [1])
         \<and> timer_trace [] (run_events (POST sv req)) = Some [timer_label ''text completion '' (req_headers req)]"
proof -
  have ne: "timer_label ''transcribe '' (req_headers req) \<noteq> timer_label ''text completion '' (req_headers req)"
    using stage_labels_distinct [of "req_headers req"] by auto
  have "timer_trace opn tev = Some opn" for opn
    using transcript_trace [of opn sv "p_input d" "[]"] assms(3) by simp
  then show ?thesis
    using assms ne get_transcript_Some [OF assms(2,3)]
    by (simp add: POST_valid_Some reply_stage_def time_str_def run_events_def prefix_effects_def
        timer_trace_append split: input.split)
qed

text \<open>
  C24. The \<open>X-Transcript\<close> header of a successful answer to a text request is at
  most nine times as long as the text (three \<open>%XX\<close> escapes per UTF-16 code
  unit); the text input has no length limit, so the header grows without bound.
\<close>

theorem POST_header_length:
  assumes "req_form req = Some fd" "safe_parse (json_parse sv) fd = Some d" "p_input d = InText s"
    "outcome (POST sv req) = Respond rsp" "status rsp = 200"
  shows "\<exists>xt xr. resp_headers rsp = [(js ''X-Transcript'', xt), (js ''X-Response'', xr)]
           \<and> decode_uri_component xt = Inr s \<and> length xt \<le> 9 * length s"
proof -
  have "outcome (reply_stage sv (req_headers req) (p_message d) s) = Respond rsp"
    using assms(1-4) by (simp add: POST_valid_text)
  then obtain r v where "outcome (respond_stage (req_headers req) s r v) = Respond rsp"
    using reply_stage_200 assms(5) by metis
  then obtain xt xr where x: "encode_uri_component s = Inr xt"
      "resp_headers rsp = [(js ''X-Transcript'', xt), (js ''X-Response'', xr)]"
    using respond_stage_Respond by blast
  have "code_points s \<noteq> None" using x(1) encode_uri_component_fails_iff by (metis sum.distinct(1) sum.exhaust)
  then have "decode_uri_component xt = Inr s"
    using x(1) encode_uri_component_Inr by fastforce
  then show ?thesis using x encode_uri_component_length [OF x(1)] by blast
qed

text \<open>
  C25. An audio input yields the transcript \<open>t\<close> exactly when the service's
  text is \<open>t\<close> surrounded by white space only, and \<open>t\<close> is non-empty and
  neither starts nor ends with white space: \<open>getTranscript\<close> implements
  \<open>text.trim() || null\<close> as \<open>trim\<close> is specified.
\<close>

theorem get_transcript_trim_spec:
  "fst (get_transcript sv (InFile f)) = Some t \<longleftrightarrow>
     (\<exists>said p q. transcribe sv f = Inr said \<and> said = p @ t @ q
        \<and> list_all js_whitespace p \<and> list_all js_whitespace q
        \<and> t \<noteq> [] \<and> \<not> js_whitespace (hd t) \<and> \<not> js_whitespace (last t))"
proof
  assume a: "fst (get_transcript sv (InFile f)) = Some t"
  then obtain said where tx: "transcribe sv f = Inr said" "js_trim said = t" "t \<noteq> []"
    by (auto simp: get_transcript_file split: sum.splits if_splits)
  obtain p q where "said = p @ js_trim said @ q" "list_all js_whitespace p" "list_all js_whitespace q"
    using js_trim_infix by blast
  then show "\<exists>said p q. transcribe sv f = Inr said \<and> said = p @ t @ q
        \<and> list_all js_whitespace p \<and> list_all js_whitespace q
        \<and> t \<noteq> [] \<and> \<not> js_whitespace (hd t) \<and> \<not> js_whitespace (last t)"
    using tx js_trim_ends [of said] by auto
next
  assume "\<exists>said p q. transcribe sv f = Inr said \<and> said = p @ t @ q
        \<and> list_all js_whitespace p \<and> list_all js_whitespace q
        \<and> t \<noteq> [] \<and> \<not> js_whitespace (hd t) \<and> \<not> js_whitespace (last t)"
  then obtain said p q where "transcribe sv f = Inr said" "said = p @ t @ q" "list_all js_whitespace p"
      "list_all js_whitespace q" "t \<noteq> []" "\<not> js_whitespace (hd t)" "\<not> js_whitespace (last t)"
    by blast
  then show "fst (get_transcript sv (InFile f)) = Some t"
    using js_trim_unique [of p q t] by (simp add: get_transcript_file)
qed

end
