(* ===== verification/Spec2Isabelle.thy ===== *)
theory Spec2Isabelle
  imports Pipeline
begin

text \<open>
  \<^bold>\<open>A verified model of the voice-assistant endpoint.\<close>

  The repository is one Next.js route, \<open>src/app/api/route.ts\<close>: \<open>POST\<close>
  validates a multipart form (\<open>input\<close>: text or audio file; \<open>message\<close>: prior
  turns as JSON), turns the input into a transcript (\<open>getTranscript\<close>: text as
  it is, audio through a speech-to-text service, trimmed), asks a chat model for a
  reply with a system prompt that embeds the caller's location (\<open>location()\<close>)
  and local time (\<open>time()\<close>), sends the reply to a text-to-speech service, and
  streams the audio back with the transcript and the reply percent-encoded in the
  headers \<open>X-Transcript\<close> and \<open>X-Response\<close>. Console timers instrument each
  stage. The parts and the theories that model them:

  \<^item> \<open>Prelude\<close>: JavaScript strings as lists of UTF-16 code units
    (\<open>16 word\<close>), \<open>js\<close> for ASCII literals, the exceptions the handler can
    throw (\<open>js_error\<close>), truthiness of \<open>!x\<close> and \<open>||\<close>, request headers.
  \<^item> \<open>Unicode\<close>: surrogate pairs, the code points of a string, UTF-8 octets of a
    code point and the strict decoder of one octet sequence; round trips in both
    directions and the exact set of sequences the decoder accepts.
  \<^item> \<open>Uri\<close>: \<open>encodeURIComponent\<close> and \<open>decodeURIComponent\<close> (ECMAScript
    built-ins, modelled from the language specification), the refinement of the
    encoder to a code-point level specification, the round trip, the character
    set and length bound of encodings.
  \<^item> \<open>JsString\<close>: \<open>String.prototype.trim\<close>.
  \<^item> \<open>Form\<close>: the zod-form-data schema of lines 9--19 and
    \<open>schema.safeParse\<close> (line 24); the library's preprocessing (grouping of
    form entries, empty string and empty file as \<open>undefined\<close>, JSON parsing,
    repeatable fields) is modelled from its documentation, \<open>JSON.parse\<close> is a
    parameter.
  \<^item> \<open>Prompt\<close>: \<open>location()\<close> (lines 119--129), \<open>time()\<close> (lines
    131--135) with the clock as a parameter, the system prompt of lines 42--54
    character for character, and the message list of lines 39--61.
  \<^item> \<open>Handler\<close>: \<open>getTranscript\<close> (lines 137--150) and \<open>POST\<close> (lines
    21--117) as four stage functions, one per sequential block of the code. The
    hosted services are fields of a \<open>services\<close> record, so each theorem holds
    for every behaviour of the services. A run returns the outcome (a response
    or a thrown error), the effects in program order (console timers, service
    calls, the error log) and the callbacks registered with \<open>after()\<close>.

  \<^item> \<open>Console\<close>: Node's process-wide \<open>console.time\<close>/\<open>console.timeEnd\<close>
    table (modelled from Node's documentation) driven by the handler's timer
    effects, sequences of requests, and concurrent requests as the step relation
    \<open>interleave\<close> over their effect queues and the shared console, with an
    invariant proved by rule induction over \<open>interleave\<^sup>*\<^sup>*\<close>.
  \<^item> \<open>Pipeline\<close>: properties that follow a request through several stages
    (clock failure, header length, the transcript as \<open>trim\<close> specifies it).

  What the lemmas show: the happy path answers 200 with headers that decode to
  the transcript and the reply (C1); services are called at most once each and
  in pipeline order (C2); C3--C17 cover each early exit of the handler, the
  prompt the model receives, the character set of the header values and the
  places where the code and the specification part ways; C18--C22 show that
  every run keeps its console timers in brackets, that a 400 answer leaks the
  "transcribe" timer so that later requests with the same id warn, and that
  concurrent requests interfere on the console exactly when their
  \<open>x-vercel-id\<close> values coincide; C23--C25 cover a failing clock, the
  nine-fold bound on \<open>X-Transcript\<close> and the specification of the trimmed
  transcript (see the findings of the manifest). The claims about a request
  that reaches the chat model (C6, C10, C12, C13, C23) hold for a text and an
  audio input alike: their premise is the transcript \<open>getTranscript\<close>
  returned. No fuel or bound is needed:
  every loop of the model is structural recursion over a string or an effect
  list, except \<open>decodeURIComponent\<close>, whose termination is proved with the
  length of the remaining input as measure.

  The form is over-approximated: a text entry of \<open>request.formData()\<close> is
  any list of code units, while the platform only yields scalar value strings
  (the body is decoded as UTF-8 with replacement). No claim relies on a text
  input holding an unpaired surrogate; unpaired surrogates enter the model
  only through the services' answers, as \<open>JSON.parse\<close> can produce them.

  Not modelled: the module-level construction of the Groq client (an
  environment failure at start-up), the network transport and streaming of the
  body (the body is the list of octets the speech service returns), the wall
  clock (the console's clock advances one tick per awaited service call), and
  the internals of \<open>JSON.parse\<close> and of the hosted services, which are
  parameters. Plan for the next sittings: a JSON parser for \<open>JSON.parse\<close>
  with its round trip, and the decoder's rejection of every malformed escape.
\<close>

subsection \<open>Concrete requests and services\<close>

text \<open>
  The inputs at which the witnesses evaluate the claims: a text turn
  "Hello, who are you?" without history and without geolocation headers, an
  audio upload, and services that answer with a fixed time, reply and audio.
\<close>

definition demo_time :: jstr where
  "demo_time = js ''1/1/2025, 10:00:00 AM''"

definition demo_reply :: jstr where
  "demo_reply = js ''Hi, I am Tamash.''"

definition demo_voice :: tts_response where
  "demo_voice = \<lparr>tts_ok = True, tts_body = [1, 2, 3], tts_error_text = []\<rparr>"

definition demo_upload :: upload where
  "demo_upload = \<lparr>upload_name = js ''turn.webm'', upload_bytes = [26, 69, 223, 163]\<rparr>"

definition form_request :: "form \<Rightarrow> request" where
  "form_request fd = \<lparr>req_headers = (\<lambda>_. None), req_form = Some fd\<rparr>"

definition hello_parsed :: parsed_request where
  "hello_parsed = \<lparr>p_input = InText (js ''Hello, who are you?''), p_message = []\<rparr>"

definition hello_request :: request where
  "hello_request = form_request [(js ''input'', FText (js ''Hello, who are you?''))]"

definition demo_services :: services where
  "demo_services =
     \<lparr>transcribe = (\<lambda>_. Inr (js ''  '')),
      complete = (\<lambda>_. Inr [Some demo_reply]),
      synthesize = (\<lambda>_. Inr demo_voice),
      locale_time = (\<lambda>_. Inr demo_time),
      json_parse = (\<lambda>_. None),
      cartesia_key = Some (js ''key'')\<rparr>"

definition hello_response :: response where
  "hello_response =
     \<lparr>status = 200, body = AudioStream [1, 2, 3],
      resp_headers = [(js ''X-Transcript'', js ''Hello%2C%20who%20are%20you%3F''),
                      (js ''X-Response'', js ''Hi%2C%20I%20am%20Tamash.'')]\<rparr>"

definition empty_request :: request where
  "empty_request = form_request [(js ''input'', FText [])]"

definition tagged_request :: request where
  "tagged_request = hello_request\<lparr>req_headers :=
     (\<lambda>h. if h = js ''x-vercel-id'' then Some (js ''fra1::iad1::7x2k'') else None)\<rparr>"

definition audio_request :: request where
  "audio_request = form_request [(js ''input'', FFile demo_upload)]"

definition voice_services :: services where
  "voice_services = demo_services\<lparr>transcribe := (\<lambda>_. Inr (js '' hi ''))\<rparr>"

definition idle_console :: console where
  "idle_console = \<lparr>timers = Map.empty, now = 0, printed = []\<rparr>"

subsection \<open>Evaluation of the concrete runs\<close>

lemma demo_services_simps [simp]:
  "locale_time demo_services = (\<lambda>_. Inr demo_time)"
  "complete demo_services = (\<lambda>_. Inr [Some demo_reply])"
  "synthesize demo_services = (\<lambda>_. Inr demo_voice)"
  "transcribe demo_services = (\<lambda>_. Inr (js ''  ''))"
  "json_parse demo_services = (\<lambda>_. None)"
  "cartesia_key demo_services = Some (js ''key'')"
  by (simp_all add: demo_services_def demo_time_def demo_reply_def demo_voice_def)

lemma hello_parse [simp]:
  "req_form hello_request = Some [(js ''input'', FText (js ''Hello, who are you?''))]"
  "safe_parse p [(js ''input'', FText (js ''Hello, who are you?''))] = Some hello_parsed"
  "req_headers hello_request = (\<lambda>_. None)"
  "p_input hello_parsed = InText (js ''Hello, who are you?'')"
  "p_message hello_parsed = []"
  by (simp_all add: hello_request_def form_request_def hello_parsed_def model_simps)

lemma hello_run:
  "POST demo_services hello_request =
     prefix_effects [TimeStart (js ''transcribe null'')]
       (prefix_effects [TimeEnd (js ''transcribe null''), TimeStart (js ''text completion null''),
            ChatCall (completion_request (js ''unknown'') demo_time [] (js ''Hello, who are you?'')),
            TimeEnd (js ''text completion null'')]
         (prefix_effects [TimeStart (js ''cartesia request null''),
              TtsCall (tts_request_of (Some (js ''key'')) (Some demo_reply)),
              TimeEnd (js ''cartesia request null'')]
           (respond_stage (\<lambda>_. None) (js ''Hello, who are you?'') (Some demo_reply) demo_voice)))"
  by (simp add: POST_valid_text reply_stage_ok synth_stage_ok model_simps hello_parsed_def
      demo_voice_def)

lemma hello_outcome: "outcome (POST demo_services hello_request) = Respond hello_response"
  by (simp add: hello_run hello_response_def respond_stage_def demo_reply_def demo_voice_def
      model_simps Let_def)

lemma empty_outcome:
  "outcome (POST demo_services empty_request) = Respond (text_response 400 ''Invalid request'')"
  by (simp add: POST_def empty_request_def form_request_def model_simps Let_def)

lemma audio_parse [simp]:
  "req_form audio_request = Some [(js ''input'', FFile demo_upload)]"
  "safe_parse p [(js ''input'', FFile demo_upload)] = Some \<lparr>p_input = InFile demo_upload, p_message = []\<rparr>"
  "req_headers audio_request = (\<lambda>_. None)"
  by (simp_all add: audio_request_def form_request_def demo_upload_def model_simps)

lemma voice_transcript [simp]:
  "get_transcript voice_services (InFile demo_upload) = (Some (js ''hi''), [TranscribeCall demo_upload])"
  by (simp add: voice_services_def model_simps js_trim_def js_whitespace_def)

subsection \<open>Witnesses\<close>

theorem POST_text_roundtrip_witness:
  "\<exists>xt xr. outcome (POST demo_services hello_request) =
     Respond \<lparr>status = 200, body = AudioStream [1, 2, 3],
              resp_headers = [(js ''X-Transcript'', xt), (js ''X-Response'', xr)]\<rparr>
     \<and> decode_uri_component xt = Inr (js ''Hello, who are you?'')
     \<and> decode_uri_component xr = Inr (js ''Hi, I am Tamash.'')"
  using POST_text_roundtrip [of hello_request _ demo_services hello_parsed "js ''Hello, who are you?''"
      demo_time "js ''Hi, I am Tamash.''" "[]" demo_voice]
  by (simp add: time_str_def model_simps hello_parsed_def demo_voice_def demo_reply_def)

theorem POST_invalid_request_witness:
  "outcome (POST demo_services (form_request [(js ''input'', FText [])]))
     = Respond (text_response 400 ''Invalid request'')
   \<and> stage_calls (POST demo_services (form_request [(js ''input'', FText [])])) = []"
  using POST_invalid_request [of "form_request [(js ''input'', FText [])]" "[(js ''input'', FText [])]" demo_services]
  by (simp add: form_request_def model_simps)

theorem POST_missing_input_witness:
  "outcome (POST demo_services (form_request [(js ''message'', FText (js ''x''))]))
     = Respond (text_response 400 ''Invalid request'')"
  using POST_missing_input [of "form_request [(js ''message'', FText (js ''x''))]"
      "[(js ''message'', FText (js ''x''))]" demo_services]
  by (simp add: form_request_def)

theorem POST_bad_role_witness:
  "outcome (POST (demo_services\<lparr>json_parse := (\<lambda>_. Some (JObject [(js ''role'', JString (js ''system'')),
        (js ''content'', JString (js ''hi''))]))\<rparr>)
      (form_request [(js ''input'', FText (js ''Hi'')), (js ''message'', FText (js ''{}''))]))
     = Respond (text_response 400 ''Invalid request'')"
  using POST_bad_role [of "form_request [(js ''input'', FText (js ''Hi'')), (js ''message'', FText (js ''{}''))]"
      "[(js ''input'', FText (js ''Hi'')), (js ''message'', FText (js ''{}''))]" "js ''{}''"
      "demo_services\<lparr>json_parse := (\<lambda>_. Some (JObject [(js ''role'', JString (js ''system'')),
        (js ''content'', JString (js ''hi''))]))\<rparr>"
      "[(js ''role'', JString (js ''system'')), (js ''content'', JString (js ''hi''))]"]
  by (simp add: form_request_def model_simps)

theorem POST_blank_audio_witness:
  "outcome (POST demo_services (form_request [(js ''input'', FFile demo_upload)]))
     = Respond (text_response 400 ''Invalid audio'')
   \<and> stage_calls (POST demo_services (form_request [(js ''input'', FFile demo_upload)])) = [1]"
  using POST_blank_audio [of "form_request [(js ''input'', FFile demo_upload)]"
      "[(js ''input'', FFile demo_upload)]" demo_services
      "\<lparr>p_input = InFile demo_upload, p_message = []\<rparr>" demo_upload]
  by (simp add: form_request_def demo_upload_def model_simps js_whitespace_def)

theorem POST_tts_failure_witness:
  "outcome (POST (voice_services\<lparr>synthesize := (\<lambda>_. Inr \<lparr>tts_ok = False, tts_body = [],
       tts_error_text = js ''quota exceeded''\<rparr>)\<rparr>) audio_request)
     = Respond (text_response 500 ''Voice synthesis failed'')"
  using POST_tts_failure [where sv = "voice_services\<lparr>synthesize := (\<lambda>_. Inr \<lparr>tts_ok = False, tts_body = [],
        tts_error_text = js ''quota exceeded''\<rparr>)\<rparr>"
      and t = "js ''hi''"
      and tev = "[TranscribeCall demo_upload]" and tm = demo_time and r = "Some demo_reply" and rs = "[]"
      and voice = "\<lparr>tts_ok = False, tts_body = [], tts_error_text = js ''quota exceeded''\<rparr>",
      OF audio_parse(1) audio_parse(2)]
  by (simp add: time_str_def voice_services_def get_transcript_def Let_def js_trim_def js_whitespace_def)

theorem POST_chat_failure_witness:
  "outcome (POST (voice_services\<lparr>complete := (\<lambda>_. Inl (ServiceError (js ''503'')))\<rparr>) audio_request)
     = Throw (ServiceError (js ''503''))
   \<and> stage_calls (POST (voice_services\<lparr>complete := (\<lambda>_. Inl (ServiceError (js ''503'')))\<rparr>) audio_request)
     = [1, 2]"
  using POST_chat_failure [where sv = "voice_services\<lparr>complete := (\<lambda>_. Inl (ServiceError (js ''503'')))\<rparr>"
      and t = "js ''hi''"
      and tev = "[TranscribeCall demo_upload]" and tm = demo_time and e = "ServiceError (js ''503'')",
      OF audio_parse(1) audio_parse(2)]
  by (simp add: time_str_def voice_services_def get_transcript_def Let_def js_trim_def js_whitespace_def)

theorem POST_not_form_data_witness:
  "outcome (POST demo_services \<lparr>req_headers = (\<lambda>_. None), req_form = None\<rparr>) = Throw TypeError
   \<and> stage_calls (POST demo_services \<lparr>req_headers = (\<lambda>_. None), req_form = None\<rparr>) = []"
  using POST_not_form_data [of "\<lparr>req_headers = (\<lambda>_. None), req_form = None\<rparr>" demo_services]
  by simp

theorem POST_unpaired_surrogate_witness:
  "outcome (POST (voice_services\<lparr>complete := (\<lambda>_. Inr [Some [0xD83D]])\<rparr>) audio_request) = Throw URIError
   \<and> stage_calls (POST (voice_services\<lparr>complete := (\<lambda>_. Inr [Some [0xD83D]])\<rparr>) audio_request) = [1, 2, 3]"
  using POST_unpaired_surrogate [where sv = "voice_services\<lparr>complete := (\<lambda>_. Inr [Some [0xD83D]])\<rparr>"
      and t = "js ''hi''"
      and tev = "[TranscribeCall demo_upload]" and tm = demo_time and r = "[0xD83D]" and rs = "[]"
      and voice = demo_voice,
      OF audio_parse(1) audio_parse(2)]
  by (simp add: time_str_def voice_services_def get_transcript_def Let_def js_trim_def js_whitespace_def demo_voice_def is_lead_def is_trail_def)

theorem POST_null_reply_witness:
  "outcome (POST (voice_services\<lparr>complete := (\<lambda>_. Inr [None])\<rparr>) audio_request)
     = Respond \<lparr>status = 200, body = AudioStream [1, 2, 3],
         resp_headers = [(js ''X-Transcript'', js ''hi''), (js ''X-Response'', js ''null'')]\<rparr>"
  using POST_null_reply [where sv = "voice_services\<lparr>complete := (\<lambda>_. Inr [None])\<rparr>"
      and t = "js ''hi''"
      and tev = "[TranscribeCall demo_upload]" and tm = demo_time and rs = "[]" and voice = demo_voice
      and xt = "js ''hi''",
      OF audio_parse(1) audio_parse(2)]
  by (simp add: time_str_def voice_services_def get_transcript_def Let_def js_trim_def js_whitespace_def demo_voice_def uri_unreserved_def)

theorem POST_text_untrimmed_witness:
  "ChatCall (completion_request (js ''unknown'') demo_time [] (js ''   ''))
     \<in> set (effects (POST demo_services (form_request [(js ''input'', FText (js ''   ''))])))"
  using POST_text_untrimmed [of "form_request [(js ''input'', FText (js ''   ''))]" _ demo_services
      "\<lparr>p_input = InText (js ''   ''), p_message = []\<rparr>" "js ''   ''" demo_time]
  by (simp add: form_request_def time_str_def model_simps)

theorem timer_label_fallback_dead_witness:
  "timer_label ''transcribe '' (\<lambda>_. None) = js ''transcribe null''"
  using timer_label_fallback_dead [of "''transcribe ''" "\<lambda>_. None"] by (simp add: js_str_of_def)

theorem get_transcript_audio_witness:
  "get_transcript (demo_services\<lparr>transcribe := (\<lambda>_. Inr (js '' hi ''))\<rparr>) (InFile demo_upload)
     = (Some (js ''hi''), [TranscribeCall demo_upload])
   \<and> \<not> js_whitespace (hd (js ''hi''))"
  using get_transcript_audio [of "demo_services\<lparr>transcribe := (\<lambda>_. Inr (js '' hi ''))\<rparr>" demo_upload
      "js ''hi''" "[TranscribeCall demo_upload]"]
  by (simp add: model_simps js_trim_def js_whitespace_def)

theorem POST_prompt_roles_witness:
  "role (hd (chat_messages (completion_request (js ''unknown'') demo_time [] (js ''Hello, who are you?''))))
     = System"
  using POST_prompt_roles [of "completion_request (js ''unknown'') demo_time [] (js ''Hello, who are you?'')"
      demo_services hello_request]
  by (simp add: hello_run)

theorem POST_headers_visible_witness:
  "outcome (POST demo_services hello_request) =
     Respond \<lparr>status = 200, body = AudioStream [1, 2, 3],
       resp_headers = [(js ''X-Transcript'', js ''Hello%2C%20who%20are%20you%3F''),
                       (js ''X-Response'', js ''Hi%2C%20I%20am%20Tamash.'')]\<rparr>
   \<and> list_all visible_ascii (js ''Hi%2C%20I%20am%20Tamash.'')"
  using POST_headers_visible [of demo_services hello_request
      "\<lparr>status = 200, body = AudioStream [1, 2, 3],
        resp_headers = [(js ''X-Transcript'', js ''Hello%2C%20who%20are%20you%3F''),
                        (js ''X-Response'', js ''Hi%2C%20I%20am%20Tamash.'')]\<rparr>"]
  by (simp add: hello_run respond_stage_def demo_reply_def demo_voice_def model_simps Let_def)

theorem location_unknown_iff_witness:
  "location (\<lambda>h. if h = js ''x-vercel-ip-city'' then Some [] else Some (js ''HU'')) = js ''unknown''"
  using location_unknown_iff [of "\<lambda>h. if h = js ''x-vercel-ip-city'' then Some [] else Some (js ''HU'')"]
  by simp


theorem POST_console_balanced_witness:
  "warnings (console_run (run_events (POST demo_services hello_request)) idle_console) = []
   \<and> timers (console_run (run_events (POST demo_services hello_request)) idle_console) = Map.empty"
  using POST_console_balanced [of demo_services hello_request hello_response idle_console] hello_outcome
  by (simp add: hello_response_def idle_console_def warnings_def)

theorem POST_timer_leak_witness:
  "LabelExists (js ''transcribe null'') \<in> set (warnings (console_run (run_events (POST demo_services hello_request))
      (console_run (run_events (POST demo_services empty_request)) idle_console)))"
  using POST_timer_leak [of demo_services empty_request "text_response 400 ''Invalid request''"
      hello_request demo_services idle_console] empty_outcome
  by (simp add: text_response_def empty_request_def form_request_def model_simps)

theorem POST_concurrent_distinct_ids_witness:
  "\<exists>qs c. interleave\<^sup>*\<^sup>* ([run_events (POST demo_services hello_request),
                                run_events (POST demo_services tagged_request)], idle_console) (qs, c)
     \<and> timers c (js ''transcribe null'') \<noteq> None \<and> timers c (js ''transcribe fra1::iad1::7x2k'') \<noteq> None
     \<and> warnings c = []"
proof -
  let ?l1 = "js ''transcribe null''" and ?l2 = "js ''transcribe fra1::iad1::7x2k''"
  have l1: "timer_label ''transcribe '' (req_headers hello_request) = ?l1" by (simp add: model_simps)
  have l2: "timer_label ''transcribe '' (req_headers tagged_request) = ?l2"
    by (simp add: tagged_request_def model_simps)
  obtain es1 es2 where e: "run_events (POST demo_services hello_request) = TimeStart ?l1 # es1"
      "run_events (POST demo_services tagged_request) = TimeStart ?l2 # es2"
    using POST_first [of demo_services hello_request] POST_first [of demo_services tagged_request] l1 l2
    by auto
  let ?c1 = "console_event (TimeStart ?l1) idle_console"
  let ?c2 = "console_event (TimeStart ?l2) ?c1"
  have s1: "interleave ([TimeStart ?l1 # es1, TimeStart ?l2 # es2], idle_console)
                       ([es1, TimeStart ?l2 # es2], ?c1)"
    using interleave.step [of 0 "[TimeStart ?l1 # es1, TimeStart ?l2 # es2]" "TimeStart ?l1" es1 idle_console]
    by simp
  have s2: "interleave ([es1, TimeStart ?l2 # es2], ?c1) ([es1, es2], ?c2)"
    using interleave.step [of 1 "[es1, TimeStart ?l2 # es2]" "TimeStart ?l2" es2 ?c1] by simp
  have reach: "interleave\<^sup>*\<^sup>* ([run_events (POST demo_services hello_request),
      run_events (POST demo_services tagged_request)], idle_console) ([es1, es2], ?c2)"
    using s1 s2 e by simp
  have "warnings ?c2 = warnings idle_console"
    using POST_concurrent_distinct_ids [of "[(demo_services, hello_request), (demo_services, tagged_request)]"
        idle_console "[es1, es2]" ?c2] reach
    by (simp add: tagged_request_def idle_console_def model_simps)
  then have w: "warnings ?c2 = []" by (simp add: idle_console_def warnings_def)
  have t: "timers ?c2 ?l1 \<noteq> None" "timers ?c2 ?l2 \<noteq> None"
    by (simp_all add: console_time_def idle_console_def)
  show ?thesis using reach w t by blast
qed

theorem POST_concurrent_same_id_witness:
  "\<exists>qs c. interleave\<^sup>*\<^sup>* ([run_events (POST demo_services hello_request),
                                run_events (POST demo_services hello_request)], idle_console) (qs, c)
     \<and> LabelExists (js ''transcribe null'') \<in> set (warnings c)"
  using POST_concurrent_same_id [of hello_request hello_request idle_console demo_services demo_services]
  by (simp add: idle_console_def model_simps)

theorem POST_clock_failure_witness:
  "outcome (POST (voice_services\<lparr>locale_time := (\<lambda>_. Inl RangeError)\<rparr>) audio_request) = Throw RangeError
   \<and> stage_calls (POST (voice_services\<lparr>locale_time := (\<lambda>_. Inl RangeError)\<rparr>) audio_request) = [1]"
  using POST_clock_failure [where sv = "voice_services\<lparr>locale_time := (\<lambda>_. Inl RangeError)\<rparr>"
      and t = "js ''hi''"
      and tev = "[TranscribeCall demo_upload]" and e = RangeError,
      OF audio_parse(1) audio_parse(2)]
  by (simp add: voice_services_def get_transcript_def Let_def js_trim_def js_whitespace_def)

theorem POST_header_length_witness:
  "length (js ''Hello%2C%20who%20are%20you%3F'') \<le> 9 * length (js ''Hello, who are you?'')"
  using POST_header_length [of hello_request _ demo_services hello_parsed "js ''Hello, who are you?''"
      hello_response] hello_outcome
  by (simp add: hello_response_def)

theorem get_transcript_trim_spec_witness:
  "\<exists>said p q. transcribe (demo_services\<lparr>transcribe := (\<lambda>_. Inr (js '' hi ''))\<rparr>) demo_upload = Inr said
     \<and> said = p @ js ''hi'' @ q \<and> list_all js_whitespace p \<and> list_all js_whitespace q"
  using get_transcript_trim_spec [of "demo_services\<lparr>transcribe := (\<lambda>_. Inr (js '' hi ''))\<rparr>" demo_upload
      "js ''hi''"]
  by (simp add: model_simps js_trim_def js_whitespace_def)

end
